theory Spec2Isabelle
  imports Main "HOL-Library.Word"
begin

section \<open>Common: the hardfork and EIP parameter resolver\<close>

text \<open>
  The class \<open>Common\<close> (common.ts). A JavaScript \<open>bigint\<close> is an \<open>int\<close>; a thrown
  \<open>Error\<close> is the \<open>Inl\<close> of a sum. The tables \<open>EIPs\<close> (eips/index.js) and
  \<open>HARDFORK_SPECS\<close> (hardforks/index.js) are data the class reads; they are fields
  of the model's record, so every theorem holds for any content of the tables.
\<close>

datatype common_error =
    EipNotSupported nat            \<comment> \<open>\<open>${eip} not supported\<close>\<close>
  | TopicNotDefined string         \<comment> \<open>\<open>Topic ${topic} not defined\<close>\<close>
  | MultipleMergeHardforks         \<comment> \<open>More than one merge hardforks found with ttd specified\<close>
  | MustHaveHFAtZero               \<comment> \<open>Must have at least one hardfork at block 0\<close>
  | TdLowerThanBlockHF             \<comment> \<open>Maximum HF determined by total difficulty is lower than the block number HF\<close>
  | BlockHFLowerThanTd             \<comment> \<open>HF determined by block number is lower than the minimum total difficulty HF\<close>
  | TimestampLowerThanBlockHF      \<comment> \<open>Maximum HF determined by timestamp is lower than the block number/ttd HF\<close>
  | BlockHFLowerThanTimestamp      \<comment> \<open>Maximum HF determined by block number/ttd is lower than timestamp HF\<close>
  | NoForkHashForFutureHardfork    \<comment> \<open>No fork hash calculation possible for future hardfork\<close>
  | GenesisHashRequired            \<comment> \<open>genesisHash required for forkHash calculation\<close>
  | JsTypeError                    \<comment> \<open>the runtime's TypeError: a property read of \<open>undefined\<close>\<close>

text \<open>
  \<open>ttd?: string | null\<close>: the code tells \<open>undefined\<close> from \<open>null\<close>. Block heights,
  timestamps and total difficulties of a chain configuration are natural numbers; the
  block number, timestamp and total difficulty a caller passes are \<open>bigint\<close>s, so \<open>int\<close>.
\<close>

datatype ttd_field = TtdUndefined | TtdNull | TtdVal nat

record HardforkConfig =
  hf_name :: string
  hf_block :: "nat option"         \<comment> \<open>\<open>block: number | null\<close>, \<open>null\<close> is \<open>None\<close>\<close>
  hf_ttd :: ttd_field
  hf_timestamp :: "nat option"     \<comment> \<open>\<open>timestamp?: number | string\<close>, \<open>undefined\<close> is \<open>None\<close>\<close>
  hf_forkHash :: "string option"   \<comment> \<open>\<open>forkHash?: string | null\<close>\<close>

text \<open>A parameter dictionary: topic, then parameter name, then the value \<open>v\<close>.\<close>

type_synonym params = "string \<rightharpoonup> (string \<rightharpoonup> int)"

record HardforkSpec =
  spec_name :: string
  spec_eips :: "nat list option"   \<comment> \<open>\<open>'eips' in hf\<close> is \<open>spec_eips hf \<noteq> None\<close>\<close>
  spec_params :: params

record Common =
  hardforks :: "HardforkConfig list"                          \<comment> \<open>\<open>_chainParams.hardforks\<close>\<close>
  HARDFORK_CHANGES :: "(string \<times> HardforkSpec option) list"    \<comment> \<open>\<open>undefined\<close> spec is \<open>None\<close>\<close>
  hardfork :: string                                          \<comment> \<open>\<open>_hardfork\<close>\<close>
  eips :: "nat list"                                          \<comment> \<open>\<open>_eips\<close>\<close>
  EIPs :: "nat \<rightharpoonup> params"                                      \<comment> \<open>the module's table of EIPs\<close>

definition paramByEIP :: "Common \<Rightarrow> string \<Rightarrow> string \<Rightarrow> nat \<Rightarrow> common_error + int option" where
  "paramByEIP c topic pname eip =
     (case EIPs c eip of
        None \<Rightarrow> Inl (EipNotSupported eip)
      | Some eipParams \<Rightarrow>
          (case eipParams topic of
             None \<Rightarrow> Inl (TopicNotDefined topic)
           | Some t \<Rightarrow> Inr (t pname)))"

text \<open>The inner loop of \<open>paramByHardfork\<close> over the EIPs of an EIP-referencing hardfork.\<close>

fun paramByHardfork_eips ::
  "Common \<Rightarrow> string \<Rightarrow> string \<Rightarrow> nat list \<Rightarrow> int option \<Rightarrow> common_error + int option" where
  "paramByHardfork_eips c topic pname [] val = Inr val"
| "paramByHardfork_eips c topic pname (eip # hfEIPs) val =
     (case paramByEIP c topic pname eip of
        Inl e \<Rightarrow> Inl e
      | Inr valueEIP \<Rightarrow>
          paramByHardfork_eips c topic pname hfEIPs
            (case valueEIP of Some v \<Rightarrow> Some v | None \<Rightarrow> val))"

text \<open>The body of the outer loop for one entry of \<open>HARDFORK_CHANGES\<close>.\<close>

definition paramByHardfork_step ::
  "Common \<Rightarrow> string \<Rightarrow> string \<Rightarrow> HardforkSpec option \<Rightarrow> int option \<Rightarrow> common_error + int option" where
  "paramByHardfork_step c topic pname sp val =
     (case sp of
        None \<Rightarrow> Inl JsTypeError
      | Some s \<Rightarrow>
          (case spec_eips s of
             Some hfEIPs \<Rightarrow> paramByHardfork_eips c topic pname hfEIPs val
           | None \<Rightarrow>
               (case spec_params s topic of
                  None \<Rightarrow> Inl (TopicNotDefined topic)
                | Some t \<Rightarrow> Inr (case t pname of Some v \<Rightarrow> Some v | None \<Rightarrow> val))))"

fun paramByHardfork_loop ::
  "Common \<Rightarrow> string \<Rightarrow> string \<Rightarrow> string \<Rightarrow> (string \<times> HardforkSpec option) list \<Rightarrow> int option
     \<Rightarrow> common_error + int option" where
  "paramByHardfork_loop c topic pname hf [] val = Inr val"
| "paramByHardfork_loop c topic pname hf (hfChanges # rest) val =
     (case paramByHardfork_step c topic pname (snd hfChanges) val of
        Inl e \<Rightarrow> Inl e
      | Inr val' \<Rightarrow>
          if fst hfChanges = hf then Inr val'
          else paramByHardfork_loop c topic pname hf rest val')"

definition paramByHardfork :: "Common \<Rightarrow> string \<Rightarrow> string \<Rightarrow> string \<Rightarrow> common_error + int" where
  "paramByHardfork c topic pname hf =
     (case paramByHardfork_loop c topic pname hf (HARDFORK_CHANGES c) None of
        Inl e \<Rightarrow> Inl e
      | Inr val \<Rightarrow> Inr (case val of Some v \<Rightarrow> v | None \<Rightarrow> 0))"

text \<open>The loop of \<open>param\<close> over the active EIPs: the first defined value is returned.\<close>

fun param_eips :: "Common \<Rightarrow> string \<Rightarrow> string \<Rightarrow> nat list \<Rightarrow> common_error + int option" where
  "param_eips c topic pname [] = Inr None"
| "param_eips c topic pname (eip # rest) =
     (case paramByEIP c topic pname eip of
        Inl e \<Rightarrow> Inl e
      | Inr (Some v) \<Rightarrow> Inr (Some v)
      | Inr None \<Rightarrow> param_eips c topic pname rest)"

definition param :: "Common \<Rightarrow> string \<Rightarrow> string \<Rightarrow> common_error + int" where
  "param c topic pname =
     (case param_eips c topic pname (eips c) of
        Inl e \<Rightarrow> Inl e
      | Inr (Some v) \<Rightarrow> Inr v
      | Inr None \<Rightarrow> paramByHardfork c topic pname (hardfork c))"

text \<open>
  \<open>hardforkGteHardfork\<close>: the positions are the last index of each name in
  \<open>hardforks()\<close>, \<open>-1\<close> when the name is absent.
\<close>

fun lastPos :: "string \<Rightarrow> HardforkConfig list \<Rightarrow> int \<Rightarrow> int \<Rightarrow> int" where
  "lastPos h [] index pos = pos"
| "lastPos h (hf # rest) index pos =
     lastPos h rest (index + 1) (if hf_name hf = h then index else pos)"

definition hardforkGteHardfork :: "Common \<Rightarrow> string option \<Rightarrow> string \<Rightarrow> bool" where
  "hardforkGteHardfork c hardfork1 hardfork2 =
     (let h1 = (case hardfork1 of None \<Rightarrow> hardfork c | Some h \<Rightarrow> h);
          posHf1 = lastPos h1 (hardforks c) 0 (-1);
          posHf2 = lastPos hardfork2 (hardforks c) 0 (-1)
      in posHf1 \<ge> posHf2 \<and> posHf2 \<noteq> -1)"

definition gteHardfork :: "Common \<Rightarrow> string \<Rightarrow> bool" where
  "gteHardfork c h = hardforkGteHardfork c None h"

text \<open>
  \<open>isActivatedEIP\<close>. An entry of \<open>HARDFORK_CHANGES\<close> without a spec makes the read
  \<open>hf['name']\<close> throw.
\<close>

fun isActivatedEIP_loop ::
  "Common \<Rightarrow> nat \<Rightarrow> (string \<times> HardforkSpec option) list \<Rightarrow> common_error + bool" where
  "isActivatedEIP_loop c eip [] = Inr False"
| "isActivatedEIP_loop c eip (hfChanges # rest) =
     (case snd hfChanges of
        None \<Rightarrow> Inl JsTypeError
      | Some hf \<Rightarrow>
          if gteHardfork c (spec_name hf) \<and>
             (case spec_eips hf of Some es \<Rightarrow> eip \<in> set es | None \<Rightarrow> False)
          then Inr True
          else isActivatedEIP_loop c eip rest)"

definition isActivatedEIP :: "Common \<Rightarrow> nat \<Rightarrow> common_error + bool" where
  "isActivatedEIP c eip =
     (if eip \<in> set (eips c) then Inr True
      else isActivatedEIP_loop c eip (HARDFORK_CHANGES c))"

subsection \<open>The resolution order in the words of the specification\<close>

text \<open>
  Written from the specification's sentence, to be compared with \<open>param\<close>: the value an
  EIP defines, the value a hardfork sets, the hardforks up to and including the current
  one, and the resolution order EIPs, then latest hardfork, then 0.
\<close>

definition eip_defines :: "Common \<Rightarrow> string \<Rightarrow> string \<Rightarrow> nat \<Rightarrow> int option" where
  "eip_defines c topic pname eip =
     (case EIPs c eip of
        None \<Rightarrow> None
      | Some p \<Rightarrow> (case p topic of None \<Rightarrow> None | Some t \<Rightarrow> t pname))"

fun first_some :: "'a option list \<Rightarrow> 'a option" where
  "first_some [] = None"
| "first_some (Some v # rest) = Some v"
| "first_some (None # rest) = first_some rest"

definition last_some :: "'a option list \<Rightarrow> 'a option" where
  "last_some xs = first_some (rev xs)"

definition hardfork_sets :: "Common \<Rightarrow> string \<Rightarrow> string \<Rightarrow> HardforkSpec option \<Rightarrow> int option" where
  "hardfork_sets c topic pname sp =
     (case sp of
        None \<Rightarrow> None
      | Some s \<Rightarrow>
          (case spec_eips s of
             Some es \<Rightarrow> last_some (map (eip_defines c topic pname) es)
           | None \<Rightarrow> (case spec_params s topic of None \<Rightarrow> None | Some t \<Rightarrow> t pname)))"

fun hardforks_upto :: "string \<Rightarrow> (string \<times> 'a) list \<Rightarrow> (string \<times> 'a) list" where
  "hardforks_upto hf [] = []"
| "hardforks_upto hf (x # rest) = x # (if fst x = hf then [] else hardforks_upto hf rest)"

definition param_spec :: "Common \<Rightarrow> string \<Rightarrow> string \<Rightarrow> int" where
  "param_spec c topic pname =
     (case first_some (map (eip_defines c topic pname) (eips c)) of
        Some v \<Rightarrow> v
      | None \<Rightarrow>
          (case last_some (map (\<lambda>x. hardfork_sets c topic pname (snd x))
                               (hardforks_upto (hardfork c) (HARDFORK_CHANGES c))) of
             Some v \<Rightarrow> v
           | None \<Rightarrow> 0))"

text \<open>
  The code throws where a consulted table lacks the topic (or the EIP, or the hardfork's
  spec). \<open>topic_known\<close> says that nothing \<open>param\<close> may consult does.
\<close>

definition eip_has_topic :: "Common \<Rightarrow> string \<Rightarrow> nat \<Rightarrow> bool" where
  "eip_has_topic c topic eip =
     (case EIPs c eip of None \<Rightarrow> False | Some p \<Rightarrow> p topic \<noteq> None)"

definition spec_has_topic :: "Common \<Rightarrow> string \<Rightarrow> HardforkSpec option \<Rightarrow> bool" where
  "spec_has_topic c topic sp =
     (case sp of
        None \<Rightarrow> False
      | Some s \<Rightarrow>
          (case spec_eips s of
             Some es \<Rightarrow> list_all (eip_has_topic c topic) es
           | None \<Rightarrow> spec_params s topic \<noteq> None))"

definition topic_known :: "Common \<Rightarrow> string \<Rightarrow> bool" where
  "topic_known c topic \<longleftrightarrow>
     list_all (eip_has_topic c topic) (eips c) \<and>
     list_all (\<lambda>x. spec_has_topic c topic (snd x)) (HARDFORK_CHANGES c)"

subsection \<open>Numbers of the runtime\<close>

text \<open>
  \<open>Number(x)\<close> for a non-negative integer \<open>x\<close> given as a \<open>bigint\<close> or in decimal digits:
  the nearest number with a mantissa of 53 bits, a tie going to the even mantissa. Below
  \<open>2^53\<close> it is \<open>x\<close> itself. (An \<open>x\<close> from \<open>2^1024\<close> on becomes \<open>Infinity\<close>, which is not
  modelled.) \<open>bit_length n\<close> is the number of binary digits of \<open>n\<close>.
\<close>

function bit_length :: "nat \<Rightarrow> nat" where
  "bit_length n = (if n = 0 then 0 else Suc (bit_length (n div 2)))"
  by pat_completeness auto
termination
  by (relation "measure id") auto

declare bit_length.simps [simp del]

definition js_Number :: "nat \<Rightarrow> nat" where
  "js_Number n =
     (if n < 2 ^ 53 then n
      else
        let k = bit_length n - 53;
            q = n div 2 ^ k;
            rest = n mod 2 ^ k;
            half = 2 ^ (k - 1);
            q' = (if rest > half \<or> (rest = half \<and> odd q) then q + 1 else q)
        in q' * 2 ^ k)"

definition js_Number_int :: "int \<Rightarrow> int" where
  "js_Number_int x = (if x < 0 then - int (js_Number (nat (- x))) else int (js_Number (nat x)))"

subsection \<open>Hardfork selection\<close>

text \<open>\<open>Array.prototype.findIndex\<close>: the first index whose element satisfies \<open>P\<close>, or \<open>-1\<close>.\<close>

fun findIndex :: "('a \<Rightarrow> bool) \<Rightarrow> 'a list \<Rightarrow> int" where
  "findIndex P [] = -1"
| "findIndex P (x # xs) =
     (if P x then 0 else (let i = findIndex P xs in if i = -1 then -1 else i + 1))"

text \<open>\<open>hf.ttd !== null && hf.ttd !== undefined\<close>\<close>

definition hasTTD :: "HardforkConfig \<Rightarrow> bool" where
  "hasTTD hf = (case hf_ttd hf of TtdVal t \<Rightarrow> True | _ \<Rightarrow> False)"

text \<open>The filter of \<open>getHardforkBy\<close>: hardforks with a block, a ttd or a timestamp.\<close>

definition isApplied :: "HardforkConfig \<Rightarrow> bool" where
  "isApplied hf \<longleftrightarrow> hf_block hf \<noteq> None \<or> hasTTD hf \<or> hf_timestamp hf \<noteq> None"

text \<open>
  The last loop of \<open>getHardforkBy\<close>: the number of steps \<open>hfIndex\<close> advances, over the
  hardforks from \<open>hfs[hfIndex]\<close> on, while the next one has the same block and timestamp.
\<close>

fun sameRun :: "HardforkConfig list \<Rightarrow> nat" where
  "sameRun (a # b # rest) =
     (if hf_block a \<noteq> hf_block b \<or> hf_timestamp a \<noteq> hf_timestamp b then 0
      else Suc (sameRun (b # rest)))"
| "sameRun _ = 0"

text \<open>
  \<open>getHardforkBy\<close>, up to the index of the hardfork it returns. An absent option
  (\<open>undefined\<close> or \<open>null\<close>) is \<open>None\<close>. \<open>hfs[hfIndex]\<close> with the index out of range is
  \<open>undefined\<close>, and reading its \<open>block\<close> throws a TypeError. The two bounds on
  the timestamp are computed on \<open>Number\<close>s and compared with the \<open>bigint\<close> given.
\<close>

definition getHardforkBy_index ::
  "Common \<Rightarrow> int option \<Rightarrow> int option \<Rightarrow> int option \<Rightarrow> common_error + nat" where
  "getHardforkBy_index c blockNumber timestamp td =
     (let hfs = filter isApplied (hardforks c);
          mergeIndex = findIndex hasTTD hfs;
          doubleTTDHF = findIndex hasTTD (drop (nat (mergeIndex + 1)) hfs)
      in
      if doubleTTDHF \<ge> 0 then Inl MultipleMergeHardforks
      else
        let found = findIndex
              (\<lambda>hf. (case (blockNumber, hf_block hf) of
                        (Some bn, Some b) \<Rightarrow> int b > bn
                      | _ \<Rightarrow> False) \<or>
                     (case (timestamp, hf_timestamp hf) of
                        (Some ts, Some t) \<Rightarrow> int t > ts
                      | _ \<Rightarrow> False)) hfs
        in
        if found = 0 then Inl MustHaveHFAtZero
        else
          let hfIndex1 = (if found = -1 then int (length hfs) else found);
              hfIndex2 =
                (if timestamp = None
                 then hfIndex1 -
                   findIndex (\<lambda>hf. hf_block hf \<noteq> None \<or> hf_ttd hf \<noteq> TtdUndefined)
                     (rev (take (nat hfIndex1) hfs))
                 else hfIndex1);
              hfIndex3 = hfIndex2 - 1
          in
          if hfIndex3 < 0 \<or> hfIndex3 \<ge> int (length hfs) then Inl JsTypeError
          else
            let cur = hfs ! nat hfIndex3;
                step =
                  (if hf_block cur = None \<and> hf_timestamp cur = None
                   then
                     (case td of
                        None \<Rightarrow> Inr (hfIndex3 - 1)
                      | Some d \<Rightarrow>
                          (case hf_ttd cur of
                             TtdVal t \<Rightarrow> Inr (if int t > d then hfIndex3 - 1 else hfIndex3)
                           | _ \<Rightarrow> Inl JsTypeError))
                   else
                     (case td of
                        None \<Rightarrow> Inr hfIndex3
                      | Some d \<Rightarrow>
                          if mergeIndex \<ge> 0 then
                            (case hf_ttd (hfs ! nat mergeIndex) of
                               TtdVal t \<Rightarrow>
                                 if hfIndex3 \<ge> mergeIndex \<and> int t > d then Inl TdLowerThanBlockHF
                                 else if hfIndex3 < mergeIndex \<and> int t \<le> d
                                 then Inl BlockHFLowerThanTd
                                 else Inr hfIndex3
                             | _ \<Rightarrow> Inl JsTypeError)
                          else Inr hfIndex3))
            in
            case step of
              Inl e \<Rightarrow> Inl e
            | Inr hfIndex4 \<Rightarrow>
                if hfIndex4 < 0 then Inl JsTypeError
                else
                  let hfStartIndex = nat hfIndex4;
                      hfIndex = hfStartIndex + sameRun (drop hfStartIndex hfs)
                  in
                  case timestamp of
                    None \<Rightarrow> Inr hfIndex
                  | Some ts \<Rightarrow>
                      let minTimeStamp =
                            foldl (\<lambda>acc hf. max (case hf_timestamp hf of
                                                   Some t \<Rightarrow> int (js_Number t)
                                                 | None \<Rightarrow> 0) acc)
                              0 (take hfStartIndex hfs)
                      in
                      if minTimeStamp > ts then Inl TimestampLowerThanBlockHF
                      else
                        let maxTimeStamp =
                              foldl (\<lambda>acc hf. min (case hf_timestamp hf of
                                                     Some t \<Rightarrow> int (js_Number t)
                                                   | None \<Rightarrow> js_Number_int ts) acc)
                                (js_Number_int ts) (drop (hfIndex + 1) hfs)
                        in
                        if maxTimeStamp < ts then Inl BlockHFLowerThanTimestamp
                        else Inr hfIndex)"

definition getHardforkBy ::
  "Common \<Rightarrow> int option \<Rightarrow> int option \<Rightarrow> int option \<Rightarrow> common_error + string" where
  "getHardforkBy c blockNumber timestamp td =
     (case getHardforkBy_index c blockNumber timestamp td of
        Inl e \<Rightarrow> Inl e
      | Inr hfIndex \<Rightarrow> Inr (hf_name (filter isApplied (hardforks c) ! hfIndex)))"

text \<open>
  The stages of \<open>getHardforkBy\<close> when only a block number is given, named for the
  proofs: the candidate index, the step back over timestamp-only hardforks, the step
  off the merge hardfork, and the advance over hardforks scheduled together.
\<close>

definition blockAbove :: "int \<Rightarrow> HardforkConfig \<Rightarrow> bool" where
  "blockAbove n hf = (case hf_block hf of Some b \<Rightarrow> int b > n | None \<Rightarrow> False)"

definition firstAbove :: "int \<Rightarrow> HardforkConfig list \<Rightarrow> int" where
  "firstAbove n hfs =
     (let found = findIndex (blockAbove n) hfs in if found = -1 then int (length hfs) else found)"

definition stepBack :: "HardforkConfig list \<Rightarrow> nat \<Rightarrow> int" where
  "stepBack hfs h =
     int h - findIndex (\<lambda>hf. hf_block hf \<noteq> None \<or> hf_ttd hf \<noteq> TtdUndefined) (rev (take h hfs)) - 1"

definition mergeStep :: "HardforkConfig list \<Rightarrow> int \<Rightarrow> int" where
  "mergeStep hfs i =
     (if hf_block (hfs ! nat i) = None \<and> hf_timestamp (hfs ! nat i) = None then i - 1 else i)"

definition advance :: "HardforkConfig list \<Rightarrow> nat \<Rightarrow> nat" where
  "advance hfs i = i + sameRun (drop i hfs)"

text \<open>The chain of the specification's second scenario.\<close>

definition goerli3 :: Common where
  "goerli3 = \<lparr> hardforks = [
      \<lparr> hf_name = ''chainstart'', hf_block = Some 0, hf_ttd = TtdUndefined,
        hf_timestamp = None, hf_forkHash = None \<rparr>,
      \<lparr> hf_name = ''berlin'', hf_block = Some 2, hf_ttd = TtdUndefined,
        hf_timestamp = None, hf_forkHash = None \<rparr>,
      \<lparr> hf_name = ''london'', hf_block = Some 3, hf_ttd = TtdUndefined,
        hf_timestamp = None, hf_forkHash = None \<rparr>],
    HARDFORK_CHANGES = [], hardfork = ''london'', eips = [], EIPs = Map.empty \<rparr>"

subsection \<open>Fork hash (EIP-2124)\<close>

type_synonym byte = "8 word"
type_synonym bytes = "byte list"

text \<open>The name of the merge hardfork, \<open>Hardfork.Paris\<close> of enums.ts.\<close>

definition Hardfork_Paris :: string where
  "Hardfork_Paris = ''paris''"

text \<open>
  \<open>hexToBytes('0x' + blockOrTime.toString(16).padStart(16, '0'))\<close>: the big-endian
  bytes of the number, padded on the left with zero bytes to eight bytes.
\<close>

function be_bytes :: "nat \<Rightarrow> bytes" where
  "be_bytes n = (if n = 0 then [] else be_bytes (n div 256) @ [of_nat (n mod 256)])"
  by pat_completeness auto
termination
  by (relation "measure id") auto

declare be_bytes.simps [simp del]

definition be8 :: "nat \<Rightarrow> bytes" where
  "be8 n = replicate (8 - length (be_bytes n)) 0 @ be_bytes n"

text \<open>
  The loop of \<open>_calcForkHash\<close>, with its two variables \<open>hfBytes\<close> and
  \<open>prevBlockOrTime\<close>. The activation point is read through \<open>Number\<close>.
\<close>

fun calcForkHash_loop :: "string \<Rightarrow> HardforkConfig list \<Rightarrow> bytes \<Rightarrow> nat \<Rightarrow> bytes" where
  "calcForkHash_loop h [] hfBytes prevBlockOrTime = hfBytes"
| "calcForkHash_loop h (hf # rest) hfBytes prevBlockOrTime =
     (let blockOrTime = map_option js_Number
                          (case hf_timestamp hf of Some t \<Rightarrow> Some t | None \<Rightarrow> hf_block hf);
          incl = (case blockOrTime of
                    Some n \<Rightarrow> n \<noteq> 0 \<and> n \<noteq> prevBlockOrTime \<and> hf_name hf \<noteq> Hardfork_Paris
                  | None \<Rightarrow> False);
          hfBytes' = (if incl then hfBytes @ be8 (the blockOrTime) else hfBytes);
          prev' = (if incl then the blockOrTime else prevBlockOrTime)
      in if hf_name hf = h then hfBytes'
         else calcForkHash_loop h rest hfBytes' prev')"

text \<open>
  The checksum of the package crc: CRC-32 with the reflected polynomial \<open>0xEDB88320\<close>,
  delivered as a signed 32-bit integer; \<open>x >>> 0\<close> reads it as an unsigned one.
\<close>

unbundle bit_operations_syntax

definition crc32_bit :: "32 word \<Rightarrow> 32 word" where
  "crc32_bit w = (if w AND 1 = 1 then drop_bit 1 w XOR 0xEDB88320 else drop_bit 1 w)"

definition crc32_byte :: "32 word \<Rightarrow> byte \<Rightarrow> 32 word" where
  "crc32_byte w b =
     crc32_bit (crc32_bit (crc32_bit (crc32_bit
       (crc32_bit (crc32_bit (crc32_bit (crc32_bit (w XOR ucast b))))))))"

definition crc :: "bytes \<Rightarrow> int" where
  "crc bs = sint (NOT (foldl crc32_byte 0xFFFFFFFF bs))"

text \<open>
  The rendering \<open>bytesToHex(intToBytes(i))\<close> of the util package: \<open>intToBytes\<close> gives the
  bytes of the hexadecimal digits of \<open>i\<close> padded to an even number, so no leading zero
  byte; \<open>bytesToHex\<close> prints two lower-case digits a byte after \<open>0x\<close>.
\<close>

definition hexdigit :: "nat \<Rightarrow> char" where
  "hexdigit d = ''0123456789abcdef'' ! (d mod 16)"

definition bytesToUnprefixedHex :: "bytes \<Rightarrow> string" where
  "bytesToUnprefixedHex bs =
     concat (map (\<lambda>b. [hexdigit (unat b div 16), hexdigit (unat b mod 16)]) bs)"

definition bytesToHex :: "bytes \<Rightarrow> string" where
  "bytesToHex bs = ''0x'' @ bytesToUnprefixedHex bs"

definition intToBytes :: "nat \<Rightarrow> bytes" where
  "intToBytes i = (if i = 0 then [0] else be_bytes i)"

text \<open>\<open>_calcForkHash\<close>.\<close>

definition calcForkHash :: "Common \<Rightarrow> string \<Rightarrow> bytes \<Rightarrow> string" where
  "calcForkHash c h genesisHash =
     (let hfBytes = calcForkHash_loop h (hardforks c) [] 0;
          inputBytes = genesisHash @ hfBytes
      in bytesToHex (intToBytes (nat (crc inputBytes mod 2 ^ 32))))"

text \<open>\<open>_getHardfork\<close>: the first hardfork of the chain with the name, or \<open>null\<close>.\<close>

fun getHardfork :: "HardforkConfig list \<Rightarrow> string \<Rightarrow> HardforkConfig option" where
  "getHardfork [] h = None"
| "getHardfork (hf # hfs) h = (if hf_name hf = h then Some hf else getHardfork hfs h)"

definition forkHash :: "Common \<Rightarrow> string option \<Rightarrow> bytes option \<Rightarrow> common_error + string" where
  "forkHash c hardfork_opt genesisHash =
     (let h = (case hardfork_opt of None \<Rightarrow> hardfork c | Some h \<Rightarrow> h) in
      case getHardfork (hardforks c) h of
        None \<Rightarrow> Inl NoForkHashForFutureHardfork
      | Some d \<Rightarrow>
          if hf_block d = None \<and> hf_timestamp d = None \<and> hf_ttd d = TtdUndefined
          then Inl NoForkHashForFutureHardfork
          else
            (case hf_forkHash d of
               Some fh \<Rightarrow> Inr fh
             | None \<Rightarrow>
                 (case genesisHash of
                    None \<Rightarrow> Inl GenesisHashRequired
                  | Some g \<Rightarrow> Inr (calcForkHash c h g))))"

text \<open>
  The input of the checksum in the words of the specification: the genesis hash, then the
  eight bytes of the activation point (timestamp if present, else block) of every
  scheduled hardfork up to the given one whose activation is strictly after genesis,
  skipping the merge hardfork and any hardfork whose activation equals the previously
  included one.
\<close>

definition activation :: "HardforkConfig \<Rightarrow> nat option" where
  "activation hf = (case hf_timestamp hf of Some t \<Rightarrow> Some t | None \<Rightarrow> hf_block hf)"

fun upto_hardfork :: "string \<Rightarrow> HardforkConfig list \<Rightarrow> HardforkConfig list" where
  "upto_hardfork h [] = []"
| "upto_hardfork h (hf # rest) = hf # (if hf_name hf = h then [] else upto_hardfork h rest)"

definition forkhash_points :: "string \<Rightarrow> HardforkConfig list \<Rightarrow> nat list" where
  "forkhash_points h hfs =
     remdups_adj
       (List.map_filter
          (\<lambda>hf. case activation hf of
                   Some v \<Rightarrow> if 0 < v \<and> hf_name hf \<noteq> Hardfork_Paris then Some v else None
                 | None \<Rightarrow> None)
          (upto_hardfork h hfs))"

definition forkhash_input :: "Common \<Rightarrow> string \<Rightarrow> bytes \<Rightarrow> bytes" where
  "forkhash_input c h g = g @ concat (map be8 (forkhash_points h (hardforks c)))"

text \<open>
  In the words of the specification: the unsigned CRC32 of the input, and its rendering as
  four bytes of hexadecimal digits.
\<close>

definition crc32 :: "bytes \<Rightarrow> nat" where
  "crc32 bs = unat (NOT (foldl crc32_byte 0xFFFFFFFF bs))"

definition hex4 :: "nat \<Rightarrow> string" where
  "hex4 n = ''0x'' @ map (\<lambda>i. hexdigit (n div 16 ^ i)) [7, 6, 5, 4, 3, 2, 1, 0]"

text \<open>
  The activation points of the hardforks up to \<open>h\<close> are safe integers, which \<open>Number\<close>
  reads exactly.
\<close>

definition safe_activations :: "string \<Rightarrow> HardforkConfig list \<Rightarrow> bool" where
  "safe_activations h hfs =
     list_all (\<lambda>hf. case activation hf of Some a \<Rightarrow> a < 2 ^ 53 | None \<Rightarrow> True)
       (upto_hardfork h hfs)"

text \<open>
  A chain whose first hardfork carries the stored fork hash of mainnet's chainstart.
\<close>

definition stored_chain :: Common where
  "stored_chain = \<lparr> hardforks = [
      \<lparr> hf_name = ''chainstart'', hf_block = Some 0, hf_ttd = TtdUndefined,
        hf_timestamp = None, hf_forkHash = Some ''0xfc64ec04'' \<rparr>,
      \<lparr> hf_name = ''homestead'', hf_block = Some 1150000, hf_ttd = TtdUndefined,
        hf_timestamp = None, hf_forkHash = None \<rparr>],
    HARDFORK_CHANGES = [], hardfork = ''homestead'', eips = [], EIPs = Map.empty \<rparr>"

definition zero_genesis :: bytes where
  "zero_genesis =
     [0, 0, 0, 0, 0, 0, 0, 0, 0, 0, 0, 0, 0, 0, 0, 0,
      0, 0, 0, 0, 0, 0, 0, 0, 0, 0, 0, 0, 0, 0, 0, 0]"

definition mainnet_genesis :: bytes where
  "mainnet_genesis =
     [0xd4, 0xe5, 0x67, 0x40, 0xf8, 0x76, 0xae, 0xf8, 0xc0, 0x10, 0xb8, 0x6a, 0x40, 0xd5, 0xf5, 0x67,
      0x45, 0xa1, 0x18, 0xd0, 0x90, 0x6a, 0x34, 0xe6, 0x9a, 0xec, 0x8c, 0x0d, 0xb1, 0xcb, 0x8f, 0xa3]"

text \<open>A genesis hash whose checksum is below \<open>2^24\<close>, and a chain with one hardfork.\<close>

definition small_genesis :: bytes where
  "small_genesis =
     [0, 0, 0, 0, 0, 0, 0, 0, 0, 0, 0, 0, 0, 0, 0, 0,
      0, 0, 0, 0, 0, 0, 0, 0, 0, 0, 0, 0, 0, 0, 0, 0x96]"

definition chainstart_chain :: Common where
  "chainstart_chain = \<lparr> hardforks = [
      \<lparr> hf_name = ''chainstart'', hf_block = Some 0, hf_ttd = TtdUndefined,
        hf_timestamp = None, hf_forkHash = None \<rparr>],
    HARDFORK_CHANGES = [], hardfork = ''chainstart'', eips = [], EIPs = Map.empty \<rparr>"

text \<open>
  The activation point a hardfork contributes to the fork hash, if any: as the
  specification words it, and as the loop reads it.
\<close>

definition fh_cand :: "HardforkConfig \<Rightarrow> nat option" where
  "fh_cand hf = (case activation hf of
                   Some a \<Rightarrow> if 0 < a \<and> hf_name hf \<noteq> Hardfork_Paris then Some a else None
                 | None \<Rightarrow> None)"

definition fh_cand_Number :: "HardforkConfig \<Rightarrow> nat option" where
  "fh_cand_Number hf =
     (case activation hf of
        Some a \<Rightarrow> if js_Number a \<noteq> 0 \<and> hf_name hf \<noteq> Hardfork_Paris then Some (js_Number a)
                  else None
      | None \<Rightarrow> None)"

subsection \<open>A chain at London, for the concrete instances\<close>

text \<open>
  Chainstart inlines its parameters; London refers to EIP-1559, whose parameters are those
  of eips/1559.json.
\<close>

definition chainstart_spec :: HardforkSpec where
  "chainstart_spec = \<lparr> spec_name = ''chainstart'', spec_eips = None,
     spec_params = [''gasConfig'' \<mapsto> [''minGasLimit'' \<mapsto> 5000, ''gasLimitBoundDivisor'' \<mapsto> 1024],
                    ''gasPrices'' \<mapsto> [''createData'' \<mapsto> 200],
                    ''vm'' \<mapsto> Map.empty, ''pow'' \<mapsto> Map.empty, ''sharding'' \<mapsto> Map.empty] \<rparr>"

definition london_spec :: HardforkSpec where
  "london_spec = \<lparr> spec_name = ''london'', spec_eips = Some [1559], spec_params = Map.empty \<rparr>"

definition eip1559_params :: params where
  "eip1559_params =
     [''gasConfig'' \<mapsto> [''baseFeeMaxChangeDenominator'' \<mapsto> 8, ''elasticityMultiplier'' \<mapsto> 2,
                        ''initialBaseFee'' \<mapsto> 1000000000],
      ''gasPrices'' \<mapsto> Map.empty, ''vm'' \<mapsto> Map.empty, ''pow'' \<mapsto> Map.empty,
      ''sharding'' \<mapsto> Map.empty]"

definition london_common :: Common where
  "london_common = \<lparr> hardforks = [
      \<lparr> hf_name = ''chainstart'', hf_block = Some 0, hf_ttd = TtdUndefined,
        hf_timestamp = None, hf_forkHash = None \<rparr>,
      \<lparr> hf_name = ''london'', hf_block = Some 3, hf_ttd = TtdUndefined,
        hf_timestamp = None, hf_forkHash = None \<rparr>],
    HARDFORK_CHANGES = [(''chainstart'', Some chainstart_spec), (''london'', Some london_spec)],
    hardfork = ''london'', eips = [], EIPs = [1559 \<mapsto> eip1559_params] \<rparr>"

section \<open>Block header: the next base fee\<close>

datatype header_error =
    HeaderCommon common_error     \<comment> \<open>an error thrown by \<open>Common\<close>\<close>
  | EIP1559NotActivated           \<comment> \<open>calcNextBaseFee() can only be called with EIP1559 being activated\<close>
  | BigIntDivisionByZero          \<comment> \<open>the runtime's RangeError\<close>
  | BigIntTypeError               \<comment> \<open>the runtime's TypeError: \<open>undefined\<close> in \<open>bigint\<close> arithmetic\<close>

text \<open>Division of \<open>bigint\<close>s truncates towards zero.\<close>

definition bigint_div :: "int \<Rightarrow> int \<Rightarrow> int" where
  "bigint_div a b = sgn a * sgn b * (\<bar>a\<bar> div \<bar>b\<bar>)"

record BlockHeader =
  gasLimit :: int
  gasUsed :: int
  baseFeePerGas :: "int option"

text \<open>
  \<open>calcNextBaseFee\<close>. The first branch returns \<open>this.baseFeePerGas\<close> as it is, be it
  \<open>undefined\<close>; the other two compute with it.
\<close>

definition calcNextBaseFee :: "Common \<Rightarrow> BlockHeader \<Rightarrow> header_error + int option" where
  "calcNextBaseFee c h =
     (case isActivatedEIP c 1559 of
        Inl e \<Rightarrow> Inl (HeaderCommon e)
      | Inr False \<Rightarrow> Inl EIP1559NotActivated
      | Inr True \<Rightarrow>
          (case param c ''gasConfig'' ''elasticityMultiplier'' of
             Inl e \<Rightarrow> Inl (HeaderCommon e)
           | Inr elasticity \<Rightarrow>
               if elasticity = 0 then Inl BigIntDivisionByZero
               else
                 let parentGasTarget = bigint_div (gasLimit h) elasticity in
                 if parentGasTarget = gasUsed h then Inr (baseFeePerGas h)
                 else if gasUsed h > parentGasTarget then
                   (let gasUsedDelta = gasUsed h - parentGasTarget in
                    case param c ''gasConfig'' ''baseFeeMaxChangeDenominator'' of
                      Inl e \<Rightarrow> Inl (HeaderCommon e)
                    | Inr baseFeeMaxChangeDenominator \<Rightarrow>
                        (case baseFeePerGas h of
                           None \<Rightarrow> Inl BigIntTypeError
                         | Some b \<Rightarrow>
                             if parentGasTarget = 0 \<or> baseFeeMaxChangeDenominator = 0
                             then Inl BigIntDivisionByZero
                             else
                               let calculatedDelta =
                                     bigint_div (bigint_div (b * gasUsedDelta) parentGasTarget)
                                       baseFeeMaxChangeDenominator
                               in Inr (Some ((if calculatedDelta > 1 then calculatedDelta else 1) + b))))
                 else
                   (let gasUsedDelta = parentGasTarget - gasUsed h in
                    case param c ''gasConfig'' ''baseFeeMaxChangeDenominator'' of
                      Inl e \<Rightarrow> Inl (HeaderCommon e)
                    | Inr baseFeeMaxChangeDenominator \<Rightarrow>
                        (case baseFeePerGas h of
                           None \<Rightarrow> Inl BigIntTypeError
                         | Some b \<Rightarrow>
                             if parentGasTarget = 0 \<or> baseFeeMaxChangeDenominator = 0
                             then Inl BigIntDivisionByZero
                             else
                               let calculatedDelta =
                                     bigint_div (bigint_div (b * gasUsedDelta) parentGasTarget)
                                       baseFeeMaxChangeDenominator
                               in Inr (Some (if b - calculatedDelta > 0 then b - calculatedDelta
                                             else 0))))))"

text \<open>A header with gas limit 100, twice the gas target used, and a base fee of 7.\<close>

definition header_fee7 :: BlockHeader where
  "header_fee7 = \<lparr> gasLimit = 100, gasUsed = 100, baseFeePerGas = Some 7 \<rparr>"

text \<open>The same with a base fee of 800, a multiple of the denominator 8.\<close>

definition header_fee800 :: BlockHeader where
  "header_fee800 = \<lparr> gasLimit = 100, gasUsed = 100, baseFeePerGas = Some 800 \<rparr>"

definition header_at_target :: BlockHeader where
  "header_at_target = \<lparr> gasLimit = 100, gasUsed = 50, baseFeePerGas = Some 800 \<rparr>"

text \<open>The same chain at Chainstart with EIP-1559 activated by the user.\<close>

definition chainstart_1559 :: Common where
  "chainstart_1559 = london_common \<lparr> hardfork := ''chainstart'', eips := [1559] \<rparr>"

section \<open>The precompile table\<close>





definition Hardfork_Homestead :: string where
  "Hardfork_Homestead = ''homestead''"

definition Hardfork_SpuriousDragon :: string where
  "Hardfork_SpuriousDragon = ''spuriousDragon''"


















text \<open>Custom precompiles: a function at address 5, and address 1 deleted.\<close>

definition address_of :: "byte \<Rightarrow> bytes" where
  "address_of b = [0, 0, 0, 0, 0, 0, 0, 0, 0, 0, 0, 0, 0, 0, 0, 0, 0, 0, 0, b]"






section \<open>The EIP-4844 blob transaction\<close>

text \<open>
  eip4844Transaction.ts. What the class takes from elsewhere is modelled as follows. The
  RLP codec and the KZG library are parameters of the functions that call them
  (\<open>RLP_encode\<close>, \<open>RLP_decode\<close>, \<open>verifyBlobKzgProofBatch\<close>,
  \<open>computeVersionedHash\<close>), and the constant \<open>LIMIT_BLOBS_PER_TX\<close> of constants.ts
  is a parameter too. The conversions of the util package are the big-endian ones.
\<close>

datatype tx_error =
    TxCommon common_error
  | CommonRequired                 \<comment> \<open>common instance required to validate versioned hashes\<close>
  | WrongTxType                    \<comment> \<open>Invalid serialized tx input: not an EIP-4844 transaction\<close>
  | InvalidRLP                     \<comment> \<open>\<open>RLP.decode\<close> throws\<close>
  | MustBeArray                    \<comment> \<open>Invalid serialized tx input: must be array\<close>
  | WrongNumberOfValues            \<comment> \<open>Only expecting 11 values (for unsigned tx) or 14 values (for signed tx)\<close>
  | WrapperWrongNumberOfValues     \<comment> \<open>Expected 4 values in the deserialized network transaction\<close>
  | CannotBeArray                  \<comment> \<open>\<open>_validateNotArray\<close>\<close>
  | InvalidShape                   \<comment> \<open>a decoded value that is not of the static type of the values array\<close>
  | LeadingZeroes                  \<comment> \<open>\<open>validateNoLeadingZeroes\<close>\<close>
  | NegativeBigInt                 \<comment> \<open>Cannot convert negative bigint to Uint8Array\<close>
  | InvalidAddressLength           \<comment> \<open>Invalid address length\<close>
  | ChainIdMismatch                \<comment> \<open>The chain ID does not match the chain ID of Common\<close>
  | EIP1559NotEnabled              \<comment> \<open>EIP-1559 not enabled on Common\<close>
  | EIP4844NotEnabled              \<comment> \<open>EIP-4844 not enabled on Common\<close>
  | InvalidAccessList              \<comment> \<open>\<open>AccessLists.verifyAccessList\<close>\<close>
  | ExceedsMaxInteger              \<comment> \<open>\<open>_validateCannotExceedMaxInteger\<close>\<close>
  | GasLimitTimesMaxFeeTooHigh     \<comment> \<open>gasLimit * maxFeePerGas cannot exceed MAX_INTEGER (2^256-1)\<close>
  | MaxFeeLessThanPriority         \<comment> \<open>maxFeePerGas cannot be less than maxPriorityFeePerGas\<close>
  | YParityInvalid                 \<comment> \<open>The y-parity of the transaction should either be 0 or 1\<close>
  | HighS                          \<comment> \<open>Invalid Signature: s-values greater than secp256k1n/2 are considered invalid\<close>
  | VersionedHashInvalidLength     \<comment> \<open>versioned hash is invalid length\<close>
  | VersionedHashWrongVersion      \<comment> \<open>versioned hash does not start with KZG commitment version\<close>
  | TooManyBlobs                   \<comment> \<open>tx can contain at most LIMIT_BLOBS_PER_TX blobs\<close>
  | MissingTo                      \<comment> \<open>BlobEIP4844Transaction can not be send without a valid `to`\<close>
  | LengthsNotEqual                \<comment> \<open>Number of versionedHashes, blobs, and commitments not all equal\<close>
  | EmptyBlobs                     \<comment> \<open>Invalid transaction with empty blobs\<close>
  | KZGVerificationFails           \<comment> \<open>KZG verification of blobs fail with error=...\<close>
  | KZGProofInvalid                \<comment> \<open>KZG proof cannot be verified from blobs/commitments\<close>
  | CommitmentMismatch nat         \<comment> \<open>commitment for blob at index x does not match versionedHash\<close>
  | VersionedHashThrows            \<comment> \<open>\<open>computeVersionedHash\<close> throws\<close>

text \<open>
  Sequencing of steps that may throw: \<open>bind_err m f\<close> runs \<open>f\<close> on the value of \<open>m\<close>
  unless \<open>m\<close> threw; \<open>throw_if b e\<close> throws \<open>e\<close> when \<open>b\<close> holds.
\<close>

definition bind_err :: "'e + 'a \<Rightarrow> ('a \<Rightarrow> 'e + 'b) \<Rightarrow> 'e + 'b" where
  "bind_err m f = (case m of Inl e \<Rightarrow> Inl e | Inr x \<Rightarrow> f x)"

definition throw_if :: "bool \<Rightarrow> 'e \<Rightarrow> 'e + unit" where
  "throw_if b e = (if b then Inl e else Inr ())"

definition lift_common :: "common_error + 'a \<Rightarrow> tx_error + 'a" where
  "lift_common m = (case m of Inl e \<Rightarrow> Inl (TxCommon e) | Inr x \<Rightarrow> Inr x)"

text \<open>What \<open>RLP.decode\<close> returns and \<open>RLP.encode\<close> takes: bytes or a list of such.\<close>

datatype rlp = RBytes bytes | RList "rlp list"

text \<open>An array of byte strings as such a value.\<close>

definition array_of :: "bytes list \<Rightarrow> rlp" where
  "array_of bs = RList (map RBytes bs)"

subsection \<open>Conversions of the util package\<close>

definition MAX_INTEGER :: int where
  "MAX_INTEGER = 2 ^ 256 - 1"

definition SECP256K1_ORDER_DIV_2 :: int where
  "SECP256K1_ORDER_DIV_2 =
     0x7fffffffffffffffffffffffffffffff5d576e7357a4501ddfe92f46681b20a0"

definition bytesToBigInt :: "bytes \<Rightarrow> int" where
  "bytesToBigInt bs = foldl (\<lambda>acc b. acc * 256 + uint b) 0 bs"

text \<open>\<open>bigIntToUnpaddedBytes\<close>: the big-endian bytes without leading zeros; none for 0.\<close>

definition bigIntToUnpaddedBytes :: "int \<Rightarrow> bytes" where
  "bigIntToUnpaddedBytes n = be_bytes (nat n)"

text \<open>\<open>bigIntToBytes\<close>: the bytes of the hexadecimal digits padded to even; \<open>[0]\<close> for 0.\<close>

definition bigIntToBytes :: "int \<Rightarrow> bytes" where
  "bigIntToBytes n = (if n = 0 then [0] else be_bytes (nat n))"

text \<open>
  A value of a transaction field as the code passes it: a \<open>Uint8Array\<close> or a \<open>bigint\<close>;
  \<open>undefined\<close> is \<open>None\<close>. \<open>toBytes\<close> turns it into bytes.
\<close>

datatype BytesLike = FromBytes bytes | FromBigInt int

definition toBytes :: "BytesLike option \<Rightarrow> tx_error + bytes" where
  "toBytes v =
     (case v of
        None \<Rightarrow> Inr []
      | Some (FromBytes b) \<Rightarrow> Inr b
      | Some (FromBigInt n) \<Rightarrow> if n < 0 then Inl NegativeBigInt else Inr (bigIntToBytes n))"

text \<open>\<open>bytesToBigInt(toBytes(x))\<close>, the reading of an integer field.\<close>

definition toBigInt :: "BytesLike option \<Rightarrow> tx_error + int" where
  "toBigInt v = (case toBytes v of Inl e \<Rightarrow> Inl e | Inr b \<Rightarrow> Inr (bytesToBigInt b))"

text \<open>An optional integer field (\<open>v\<close>, \<open>r\<close>, \<open>s\<close>): \<open>undefined\<close> when the bytes are empty.\<close>

definition toOptBigInt :: "BytesLike option \<Rightarrow> tx_error + int option" where
  "toOptBigInt v =
     (case toBytes v of
        Inl e \<Rightarrow> Inl e
      | Inr b \<Rightarrow> Inr (if length b > 0 then Some (bytesToBigInt b) else None))"

text \<open>\<open>validateNoLeadingZeroes\<close> on one value.\<close>

definition noLeadingZeroes :: "bytes option \<Rightarrow> bool" where
  "noLeadingZeroes v = (case v of Some (b # bs) \<Rightarrow> b \<noteq> 0 | _ \<Rightarrow> True)"

subsection \<open>The transaction\<close>

type_synonym AccessListBytes = "(bytes \<times> bytes list) list"

record TxData =
  td_chainId :: "BytesLike option"
  td_nonce :: "BytesLike option"
  td_maxPriorityFeePerGas :: "BytesLike option"
  td_maxFeePerGas :: "BytesLike option"
  td_gasLimit :: "BytesLike option"
  td_to :: "BytesLike option"
  td_value :: "BytesLike option"
  td_data :: "BytesLike option"
  td_accessList :: "AccessListBytes option"
  td_maxFeePerDataGas :: "BytesLike option"
  td_versionedHashes :: "bytes list option"
  td_v :: "BytesLike option"
  td_r :: "BytesLike option"
  td_s :: "BytesLike option"
  td_blobs :: "bytes list option"
  td_kzgCommitments :: "bytes list option"
  td_kzgProofs :: "bytes list option"

record TxOptions =
  opt_common :: Common
  opt_freeze :: "bool option"

record BlobEIP4844Transaction =
  chainId :: int
  nonce :: int
  maxPriorityFeePerGas :: int
  maxFeePerGas :: int
  tx_gasLimit :: int
  to :: "bytes option"                 \<comment> \<open>the bytes of the \<open>Address\<close>, or \<open>undefined\<close>\<close>
  tx_value :: int
  tx_data :: bytes
  accessList :: AccessListBytes
  maxFeePerDataGas :: int
  versionedHashes :: "bytes list"
  v :: "int option"
  r :: "int option"
  s :: "int option"
  blobs :: "rlp option"                \<comment> \<open>the three of the network wrapper: arrays of bytes, or\<close>
  kzgCommitments :: "rlp option"       \<comment> \<open>the values as the wrapper's decoder took them from\<close>
  kzgProofs :: "rlp option"            \<comment> \<open>\<open>RLP.decode\<close>\<close>
  common :: Common
  frozen :: bool

text \<open>
  Modelled from the spec: the constructor of \<open>BaseTransaction\<close> (baseTransaction.ts is not
  among the sources). It reads \<open>nonce\<close>, \<open>gasLimit\<close>, \<open>to\<close>, \<open>value\<close>, \<open>data\<close>, \<open>v\<close>,
  \<open>r\<close>, \<open>s\<close>; \<open>to\<close> is optional and an address has 20 bytes; all integer fields fit in
  256 bits.
\<close>

record BaseFields =
  b_nonce :: int
  b_gasLimit :: int
  b_to :: "bytes option"
  b_value :: int
  b_data :: bytes
  b_v :: "int option"
  b_r :: "int option"
  b_s :: "int option"

definition fits256 :: "int \<Rightarrow> bool" where
  "fits256 n \<longleftrightarrow> n \<le> MAX_INTEGER"

definition BaseTransaction :: "TxData \<Rightarrow> tx_error + BaseFields" where
  "BaseTransaction txData =
     bind_err (toBytes (td_to txData)) (\<lambda>toB.
     bind_err (toOptBigInt (td_v txData)) (\<lambda>vv.
     bind_err (toOptBigInt (td_r txData)) (\<lambda>rr.
     bind_err (toOptBigInt (td_s txData)) (\<lambda>ss.
     bind_err (toBigInt (td_nonce txData)) (\<lambda>n.
     bind_err (toBigInt (td_gasLimit txData)) (\<lambda>g.
     bind_err (throw_if (length toB > 0 \<and> length toB \<noteq> 20) InvalidAddressLength) (\<lambda>_.
     bind_err (toBigInt (td_value txData)) (\<lambda>val.
     bind_err (toBytes (td_data txData)) (\<lambda>d.
     bind_err (throw_if
                 (\<not> (fits256 val \<and> (case rr of Some x \<Rightarrow> fits256 x | None \<Rightarrow> True) \<and>
                     (case ss of Some x \<Rightarrow> fits256 x | None \<Rightarrow> True) \<and> fits256 g \<and> fits256 n))
                 ExceedsMaxInteger) (\<lambda>_.
     Inr \<lparr> b_nonce = n, b_gasLimit = g,
           b_to = (if length toB > 0 then Some toB else None),
           b_value = val, b_data = d, b_v = vv, b_r = rr, b_s = ss \<rparr>))))))))))"

text \<open>
  Modelled from the spec: \<open>AccessLists.verifyAccessList\<close> (util.ts of the package is not
  among the sources): addresses have 20 bytes and storage slots 32.
\<close>

definition verifyAccessList :: "AccessListBytes \<Rightarrow> bool" where
  "verifyAccessList al =
     list_all (\<lambda>item. length (fst item) = 20 \<and> list_all (\<lambda>slot. length slot = 32) (snd item)) al"

text \<open>
  The loop of the constructor over the versioned hashes. The version byte is
  \<open>paramByEIP('sharding', 'blobCommitmentVersionKzg', 4844)\<close>, read (and possibly
  throwing) at each hash after its length is checked.
\<close>

fun checkVersionedHashes :: "(tx_error + int option) \<Rightarrow> bytes list \<Rightarrow> tx_error + unit" where
  "checkVersionedHashes version [] = Inr ()"
| "checkVersionedHashes version (hash # rest) =
     (if length hash \<noteq> 32 then Inl VersionedHashInvalidLength
      else
        (case version of
           Inl e \<Rightarrow> Inl e
         | Inr ver \<Rightarrow>
             if Some (uint (hd hash)) \<noteq> ver then Inl VersionedHashWrongVersion
             else checkVersionedHashes version rest))"

text \<open>
  \<open>_getCommon(opts.common, chainId)\<close> with \<open>opts.common\<close> given: a chain id in the
  transaction data must be that of the \<open>Common\<close>, which is passed along as
  \<open>commonChainId\<close> (the chain's \<open>chainId\<close>, a natural number).
\<close>

definition getCommon_check :: "nat \<Rightarrow> BytesLike option \<Rightarrow> tx_error + unit" where
  "getCommon_check commonChainId cid =
     (case cid of
        None \<Rightarrow> Inr ()
      | Some x \<Rightarrow>
          bind_err (toBigInt (Some x)) (\<lambda>n. throw_if (n \<noteq> int commonChainId) ChainIdMismatch))"

definition commitmentVersion :: "Common \<Rightarrow> tx_error + int option" where
  "commitmentVersion c = lift_common (paramByEIP c ''sharding'' ''blobCommitmentVersionKzg'' 4844)"

text \<open>The constructor.\<close>

definition BlobEIP4844Transaction_new ::
  "nat \<Rightarrow> nat \<Rightarrow> TxData \<Rightarrow> TxOptions \<Rightarrow> tx_error + BlobEIP4844Transaction" where
  "BlobEIP4844Transaction_new LIMIT_BLOBS_PER_TX commonChainId txData opts =
     (let c = opt_common opts;
          al = (case td_accessList txData of None \<Rightarrow> [] | Some l \<Rightarrow> l);
          hashes = (case td_versionedHashes txData of None \<Rightarrow> [] | Some hs \<Rightarrow> hs)
      in
      bind_err (BaseTransaction txData) (\<lambda>base.
      bind_err (getCommon_check commonChainId (td_chainId txData)) (\<lambda>_.
      bind_err (lift_common (isActivatedEIP c 1559)) (\<lambda>a1559.
      bind_err (throw_if (\<not> a1559) EIP1559NotEnabled) (\<lambda>_.
      bind_err (lift_common (isActivatedEIP c 4844)) (\<lambda>a4844.
      bind_err (throw_if (\<not> a4844) EIP4844NotEnabled) (\<lambda>_.
      bind_err (throw_if (\<not> verifyAccessList al) InvalidAccessList) (\<lambda>_.
      bind_err (toBigInt (td_maxFeePerGas txData)) (\<lambda>maxFee.
      bind_err (toBigInt (td_maxPriorityFeePerGas txData)) (\<lambda>maxPrio.
      bind_err (throw_if (\<not> (fits256 maxFee \<and> fits256 maxPrio)) ExceedsMaxInteger) (\<lambda>_.
      bind_err (throw_if (b_gasLimit base * maxFee > MAX_INTEGER) GasLimitTimesMaxFeeTooHigh) (\<lambda>_.
      bind_err (throw_if (maxFee < maxPrio) MaxFeeLessThanPriority) (\<lambda>_.
      bind_err (toBigInt (td_maxFeePerDataGas txData)) (\<lambda>maxDataFee.
      bind_err (throw_if (case b_v base of Some y \<Rightarrow> y \<noteq> 0 \<and> y \<noteq> 1 | None \<Rightarrow> False)
                  YParityInvalid) (\<lambda>_.
      bind_err (throw_if (case b_s base of Some x \<Rightarrow> x > SECP256K1_ORDER_DIV_2 | None \<Rightarrow> False)
                  HighS) (\<lambda>_.
      bind_err (checkVersionedHashes (commitmentVersion c) hashes) (\<lambda>_.
      bind_err (throw_if (length hashes > LIMIT_BLOBS_PER_TX) TooManyBlobs) (\<lambda>_.
      Inr \<lparr> chainId = int commonChainId, nonce = b_nonce base, maxPriorityFeePerGas = maxPrio,
            maxFeePerGas = maxFee, tx_gasLimit = b_gasLimit base, to = b_to base,
            tx_value = b_value base, tx_data = b_data base, accessList = al,
            maxFeePerDataGas = maxDataFee, versionedHashes = hashes,
            v = b_v base, r = b_r base, s = b_s base,
            blobs = map_option array_of (td_blobs txData),
            kzgCommitments = map_option array_of (td_kzgCommitments txData),
            kzgProofs = map_option array_of (td_kzgProofs txData), common = c,
            frozen = (case opt_freeze opts of None \<Rightarrow> True | Some f \<Rightarrow> f) \<rparr>))))))))))))))))))"

subsection \<open>Serialization\<close>

definition TRANSACTION_TYPE_BYTES :: bytes where
  "TRANSACTION_TYPE_BYTES = [3]"

definition accessList_rlp :: "AccessListBytes \<Rightarrow> rlp" where
  "accessList_rlp al =
     RList (map (\<lambda>item. RList [RBytes (fst item), RList (map RBytes (snd item))]) al)"

definition opt_unpadded :: "int option \<Rightarrow> bytes" where
  "opt_unpadded x = (case x of Some n \<Rightarrow> bigIntToUnpaddedBytes n | None \<Rightarrow> [])"

definition raw :: "BlobEIP4844Transaction \<Rightarrow> rlp list" where
  "raw t =
     [RBytes (bigIntToUnpaddedBytes (chainId t)),
      RBytes (bigIntToUnpaddedBytes (nonce t)),
      RBytes (bigIntToUnpaddedBytes (maxPriorityFeePerGas t)),
      RBytes (bigIntToUnpaddedBytes (maxFeePerGas t)),
      RBytes (bigIntToUnpaddedBytes (tx_gasLimit t)),
      RBytes (case to t of Some a \<Rightarrow> a | None \<Rightarrow> []),
      RBytes (bigIntToUnpaddedBytes (tx_value t)),
      RBytes (tx_data t),
      accessList_rlp (accessList t),
      RBytes (bigIntToUnpaddedBytes (maxFeePerDataGas t)),
      RList (map RBytes (versionedHashes t)),
      RBytes (opt_unpadded (v t)),
      RBytes (opt_unpadded (r t)),
      RBytes (opt_unpadded (s t))]"

definition serialize :: "(rlp \<Rightarrow> bytes) \<Rightarrow> BlobEIP4844Transaction \<Rightarrow> bytes" where
  "serialize RLP_encode t = TRANSACTION_TYPE_BYTES @ RLP_encode (RList (raw t))"

subsection \<open>Decoding\<close>

text \<open>
  The values array is what \<open>RLP.decode\<close> returned, cast to \<open>TxValuesArray\<close>. A value
  that is not of the static type (a list where bytes are expected, or the reverse) makes
  the conversions of the constructor fail; the model says \<open>InvalidShape\<close> for all of those,
  except for \<open>chainId\<close> and \<open>v\<close>, which \<open>_validateNotArray\<close> checks.
\<close>

definition as_bytes :: "rlp \<Rightarrow> tx_error + bytes" where
  "as_bytes x = (case x of RBytes b \<Rightarrow> Inr b | RList l \<Rightarrow> Inl InvalidShape)"

fun as_bytes_list :: "rlp list \<Rightarrow> tx_error + bytes list" where
  "as_bytes_list [] = Inr []"
| "as_bytes_list (x # xs) =
     bind_err (as_bytes x) (\<lambda>b. bind_err (as_bytes_list xs) (\<lambda>bs. Inr (b # bs)))"

definition as_accessList_item :: "rlp \<Rightarrow> tx_error + bytes \<times> bytes list" where
  "as_accessList_item x =
     (case x of
        RList [RBytes a, RList slots] \<Rightarrow> bind_err (as_bytes_list slots) (\<lambda>ss. Inr (a, ss))
      | _ \<Rightarrow> Inl InvalidShape)"

fun as_accessList_items :: "rlp list \<Rightarrow> tx_error + AccessListBytes" where
  "as_accessList_items [] = Inr []"
| "as_accessList_items (x # xs) =
     bind_err (as_accessList_item x) (\<lambda>i. bind_err (as_accessList_items xs) (\<lambda>is. Inr (i # is)))"

text \<open>
  The access list of a values array. An empty \<open>Uint8Array\<close> in its place is taken for
  an empty list.
\<close>

definition as_accessList :: "rlp \<Rightarrow> tx_error + AccessListBytes" where
  "as_accessList x =
     (case x of
        RList l \<Rightarrow> as_accessList_items l
      | RBytes b \<Rightarrow> if b = [] then Inr [] else Inl InvalidShape)"

text \<open>
  The versioned hashes of a values array. An empty \<open>Uint8Array\<close> in their place maps to
  no hashes; a non-empty one to numbers, which fail the length check.
\<close>

definition as_versionedHashes :: "rlp \<Rightarrow> tx_error + bytes list" where
  "as_versionedHashes x =
     (case x of
        RList l \<Rightarrow> as_bytes_list l
      | RBytes b \<Rightarrow> if b = [] then Inr [] else Inl VersionedHashInvalidLength)"

definition fromValuesArray ::
  "nat \<Rightarrow> nat \<Rightarrow> rlp list \<Rightarrow> TxOptions \<Rightarrow> tx_error + BlobEIP4844Transaction" where
  "fromValuesArray LIMIT_BLOBS_PER_TX commonChainId vals opts =
     (if length vals \<noteq> 11 \<and> length vals \<noteq> 14 then Inl WrongNumberOfValues
      else
        let sig = (if length vals = 14 then map Some (drop 11 vals) else [None, None, None]) in
        bind_err (case vals ! 0 of RList l \<Rightarrow> Inl CannotBeArray | RBytes b \<Rightarrow> Inr b) (\<lambda>chainId_b.
        bind_err (case sig ! 0 of Some (RList l) \<Rightarrow> Inl CannotBeArray
                  | Some (RBytes b) \<Rightarrow> Inr (Some b) | None \<Rightarrow> Inr None) (\<lambda>v_b.
        bind_err (as_bytes (vals ! 1)) (\<lambda>nonce_b.
        bind_err (as_bytes (vals ! 2)) (\<lambda>maxPriorityFeePerGas_b.
        bind_err (as_bytes (vals ! 3)) (\<lambda>maxFeePerGas_b.
        bind_err (as_bytes (vals ! 4)) (\<lambda>gasLimit_b.
        bind_err (as_bytes (vals ! 5)) (\<lambda>to_b.
        bind_err (as_bytes (vals ! 6)) (\<lambda>value_b.
        bind_err (as_bytes (vals ! 7)) (\<lambda>data_b.
        bind_err (as_bytes (vals ! 9)) (\<lambda>maxFeePerDataGas_b.
        bind_err (case sig ! 1 of Some x \<Rightarrow> bind_err (as_bytes x) (\<lambda>b. Inr (Some b))
                  | None \<Rightarrow> Inr None) (\<lambda>r_b.
        bind_err (case sig ! 2 of Some x \<Rightarrow> bind_err (as_bytes x) (\<lambda>b. Inr (Some b))
                  | None \<Rightarrow> Inr None) (\<lambda>s_b.
        bind_err (throw_if
                    (\<not> list_all noLeadingZeroes
                         [Some nonce_b, Some maxPriorityFeePerGas_b, Some maxFeePerGas_b,
                          Some gasLimit_b, Some value_b, Some maxFeePerDataGas_b, v_b, r_b, s_b])
                    LeadingZeroes) (\<lambda>_.
        bind_err (as_accessList (vals ! 8)) (\<lambda>al.
        bind_err (as_versionedHashes (vals ! 10)) (\<lambda>hashes.
        BlobEIP4844Transaction_new LIMIT_BLOBS_PER_TX commonChainId
          \<lparr> td_chainId = Some (FromBigInt (bytesToBigInt chainId_b)),
            td_nonce = Some (FromBytes nonce_b),
            td_maxPriorityFeePerGas = Some (FromBytes maxPriorityFeePerGas_b),
            td_maxFeePerGas = Some (FromBytes maxFeePerGas_b),
            td_gasLimit = Some (FromBytes gasLimit_b),
            td_to = Some (FromBytes to_b),
            td_value = Some (FromBytes value_b),
            td_data = Some (FromBytes data_b),
            td_accessList = Some al,
            td_maxFeePerDataGas = Some (FromBytes maxFeePerDataGas_b),
            td_versionedHashes = Some hashes,
            td_v = (case v_b of Some b \<Rightarrow> Some (FromBigInt (bytesToBigInt b)) | None \<Rightarrow> None),
            td_r = map_option FromBytes r_b,
            td_s = map_option FromBytes s_b,
            td_blobs = None, td_kzgCommitments = None, td_kzgProofs = None \<rparr>
          opts))))))))))))))))"

definition fromSerializedTx ::
  "(bytes \<Rightarrow> rlp option) \<Rightarrow> nat \<Rightarrow> nat \<Rightarrow> bytes \<Rightarrow> TxOptions
     \<Rightarrow> tx_error + BlobEIP4844Transaction" where
  "fromSerializedTx RLP_decode LIMIT_BLOBS_PER_TX commonChainId serialized opts =
     (if take 1 serialized \<noteq> TRANSACTION_TYPE_BYTES then Inl WrongTxType
      else
        (case RLP_decode (drop 1 serialized) of
           None \<Rightarrow> Inl InvalidRLP
         | Some (RBytes b) \<Rightarrow> Inl MustBeArray
         | Some (RList vals) \<Rightarrow> fromValuesArray LIMIT_BLOBS_PER_TX commonChainId vals opts))"

subsection \<open>The network wrapper\<close>

text \<open>
  The blobs, commitments and proofs of a wrapper are passed on as \<open>RLP.decode\<close> returned
  them, whatever their shape: the code reads their \<open>length\<close> (of an array or of a
  \<open>Uint8Array\<close>) and the commitment at an index (an item of an array, or a number of a
  \<open>Uint8Array\<close>).
\<close>

datatype js_elem = ItemOf rlp | NumberOf byte

fun js_length :: "rlp \<Rightarrow> nat" where
  "js_length (RBytes b) = length b"
| "js_length (RList l) = length l"

fun js_index :: "rlp \<Rightarrow> nat \<Rightarrow> js_elem" where
  "js_index (RBytes b) x = NumberOf (b ! x)"
| "js_index (RList l) x = ItemOf (l ! x)"

text \<open>
  \<open>validateBlobTransactionNetworkWrapper\<close>. The two functions of the util package are
  parameters: \<open>kzg.verifyBlobKzgProofBatch\<close> returns a truth value or throws (\<open>None\<close>), and
  \<open>computeVersionedHash\<close> returns the hash or throws (\<open>None\<close>). The loop runs over the
  indices of the versioned hashes, which are as many as the commitments.
\<close>

fun checkCommitments ::
  "(js_elem \<Rightarrow> int option \<Rightarrow> bytes option) \<Rightarrow> int option \<Rightarrow> bytes list \<Rightarrow> rlp \<Rightarrow> nat
     \<Rightarrow> tx_error + unit" where
  "checkCommitments computeVersionedHash version [] commitments x = Inr ()"
| "checkCommitments computeVersionedHash version (h # hs) commitments x =
     (case computeVersionedHash (js_index commitments x) version of
        None \<Rightarrow> Inl VersionedHashThrows
      | Some computedVersionedHash \<Rightarrow>
          if computedVersionedHash \<noteq> h then Inl (CommitmentMismatch x)
          else checkCommitments computeVersionedHash version hs commitments (x + 1))"

definition validateBlobTransactionNetworkWrapper ::
  "(rlp \<Rightarrow> rlp \<Rightarrow> rlp \<Rightarrow> bool option) \<Rightarrow> (js_elem \<Rightarrow> int option \<Rightarrow> bytes option)
     \<Rightarrow> bytes list \<Rightarrow> rlp \<Rightarrow> rlp \<Rightarrow> rlp \<Rightarrow> int option \<Rightarrow> tx_error + unit" where
  "validateBlobTransactionNetworkWrapper verifyBlobKzgProofBatch computeVersionedHash
     hashes blobs' commitments kzgProofs' version =
     (if \<not> (length hashes = js_length blobs' \<and> js_length blobs' = js_length commitments)
      then Inl LengthsNotEqual
      else if length hashes = 0 then Inl EmptyBlobs
      else
        (case verifyBlobKzgProofBatch blobs' commitments kzgProofs' of
           None \<Rightarrow> Inl KZGVerificationFails
         | Some isValid \<Rightarrow>
             if \<not> isValid then Inl KZGProofInvalid
             else checkCommitments computeVersionedHash version hashes commitments 0))"

text \<open>
  \<open>fromSerializedBlobTxNetworkWrapper\<close>. Where the first of the four values is a
  \<open>Uint8Array\<close>, \<open>fromValuesArray\<close> counts its bytes and, with 11 or 14 of them, reads
  numbers for the fields: the \<open>to\<close> of the transaction then is a number, whose bytes are
  no address.
\<close>

definition fromSerializedBlobTxNetworkWrapper ::
  "(bytes \<Rightarrow> rlp option) \<Rightarrow> (rlp \<Rightarrow> rlp \<Rightarrow> rlp \<Rightarrow> bool option)
     \<Rightarrow> (js_elem \<Rightarrow> int option \<Rightarrow> bytes option) \<Rightarrow> nat \<Rightarrow> nat \<Rightarrow> bytes \<Rightarrow> TxOptions option
     \<Rightarrow> tx_error + BlobEIP4844Transaction" where
  "fromSerializedBlobTxNetworkWrapper RLP_decode verifyBlobKzgProofBatch computeVersionedHash
     LIMIT_BLOBS_PER_TX commonChainId serialized opts_opt =
     (case opts_opt of
        None \<Rightarrow> Inl CommonRequired
      | Some opts \<Rightarrow>
          if take 1 serialized \<noteq> TRANSACTION_TYPE_BYTES then Inl WrongTxType
          else
            (case RLP_decode (drop 1 serialized) of
               None \<Rightarrow> Inl InvalidRLP
             | Some (RBytes b) \<Rightarrow>
                 if length b \<noteq> 4 then Inl WrapperWrongNumberOfValues else Inl WrongNumberOfValues
             | Some (RList networkTxValues) \<Rightarrow>
                 if length networkTxValues \<noteq> 4 then Inl WrapperWrongNumberOfValues
                 else
                   (let blobs' = networkTxValues ! 1;
                        kzgCommitments' = networkTxValues ! 2;
                        kzgProofs' = networkTxValues ! 3
                    in
                    bind_err (case networkTxValues ! 0 of
                                RList txValues \<Rightarrow>
                                  fromValuesArray LIMIT_BLOBS_PER_TX commonChainId txValues
                                    (opts \<lparr> opt_freeze := Some False \<rparr>)
                              | RBytes b \<Rightarrow>
                                  if length b \<noteq> 11 \<and> length b \<noteq> 14 then Inl WrongNumberOfValues
                                  else Inl InvalidAddressLength) (\<lambda>decodedTx.
                    bind_err (throw_if (to decodedTx = None) MissingTo) (\<lambda>_.
                    bind_err (commitmentVersion (opt_common opts)) (\<lambda>version.
                    bind_err (validateBlobTransactionNetworkWrapper verifyBlobKzgProofBatch
                                computeVersionedHash (versionedHashes decodedTx)
                                blobs' kzgCommitments' kzgProofs' version) (\<lambda>_.
                    Inr (decodedTx \<lparr> blobs := Some blobs', kzgCommitments := Some kzgCommitments',
                                      kzgProofs := Some kzgProofs',
                                      frozen := (case opt_freeze opts of None \<Rightarrow> True
                                                 | Some f \<Rightarrow> f) \<rparr>))))))))"

subsection \<open>The RLP codec, for the concrete instances\<close>

text \<open>
  The recursive-length-prefix encoding and its canonical decoding. The theorems take the
  codec as a parameter; the concrete instances run this one. The decoder's recursion is
  bounded by a list of fuel, for which \<open>RLP_decode\<close> passes the input twice over.
\<close>

definition encodeLength :: "nat \<Rightarrow> nat \<Rightarrow> bytes" where
  "encodeLength len offset =
     (if len < 56 then [of_nat (len + offset)]
      else (let bl = be_bytes len in of_nat (length bl + offset + 55) # bl))"

fun RLP_encode :: "rlp \<Rightarrow> bytes" where
  "RLP_encode (RBytes bs) =
     (if length bs = 1 \<and> hd bs < 128 then bs else encodeLength (length bs) 128 @ bs)"
| "RLP_encode (RList xs) =
     (let payload = concat (map RLP_encode xs) in encodeLength (length payload) 192 @ payload)"

definition be_nat :: "bytes \<Rightarrow> nat" where
  "be_nat bs = foldl (\<lambda>acc b. acc * 256 + unat b) 0 bs"

text \<open>The payload after a long-form prefix of \<open>ll\<close> length bytes, and the rest.\<close>

definition long_payload :: "nat \<Rightarrow> bytes \<Rightarrow> (bytes \<times> bytes) option" where
  "long_payload ll rest =
     (if length rest < ll then None
      else
        let len = be_nat (take ll rest); rest' = drop ll rest in
        if len < 56 \<or> hd rest = 0 then None
        else if length rest' < len then None
        else Some (take len rest', drop len rest'))"

fun rlp_decode_item :: "'f list \<Rightarrow> bytes \<Rightarrow> (rlp \<times> bytes) option"
  and rlp_decode_items :: "'f list \<Rightarrow> bytes \<Rightarrow> rlp list option" where
  "rlp_decode_item [] bs = None"
| "rlp_decode_item (f # fuel) [] = None"
| "rlp_decode_item (f # fuel) (b # rest) =
     (if b < 128 then Some (RBytes [b], rest)
      else if b \<le> 183 then
        (let len = unat b - 128 in
         if length rest < len then None
         else if len = 1 \<and> hd rest < 128 then None
         else Some (RBytes (take len rest), drop len rest))
      else if b \<le> 191 then
        (case long_payload (unat b - 183) rest of
           None \<Rightarrow> None
         | Some (payload, rest') \<Rightarrow> Some (RBytes payload, rest'))
      else if b \<le> 247 then
        (let len = unat b - 192 in
         if length rest < len then None
         else
           (case rlp_decode_items fuel (take len rest) of
              None \<Rightarrow> None
            | Some items \<Rightarrow> Some (RList items, drop len rest)))
      else
        (case long_payload (unat b - 247) rest of
           None \<Rightarrow> None
         | Some (payload, rest') \<Rightarrow>
             (case rlp_decode_items fuel payload of
                None \<Rightarrow> None
              | Some items \<Rightarrow> Some (RList items, rest'))))"
| "rlp_decode_items fuel [] = Some []"
| "rlp_decode_items [] (b # bs) = None"
| "rlp_decode_items (f # fuel) (b # bs) =
     (case rlp_decode_item fuel (b # bs) of
        None \<Rightarrow> None
      | Some (x, rest) \<Rightarrow>
          (case rlp_decode_items fuel rest of
             None \<Rightarrow> None
           | Some xs \<Rightarrow> Some (x # xs)))"

definition RLP_decode :: "bytes \<Rightarrow> rlp option" where
  "RLP_decode bs =
     (case rlp_decode_item (bs @ bs @ [0]) bs of
        Some (x, []) \<Rightarrow> Some x
      | _ \<Rightarrow> None)"

subsection \<open>Concrete transactions\<close>

text \<open>
  A chain with EIP-1559 by its hardfork and EIP-4844 activated by the user; the version
  byte of KZG commitments is 1, as in eips/4844.json.
\<close>

definition eip4844_params :: params where
  "eip4844_params =
     [''gasConfig'' \<mapsto> Map.empty, ''gasPrices'' \<mapsto> Map.empty, ''vm'' \<mapsto> Map.empty,
      ''pow'' \<mapsto> Map.empty, ''sharding'' \<mapsto> [''blobCommitmentVersionKzg'' \<mapsto> 1]]"

definition blob_common :: Common where
  "blob_common = london_common \<lparr> eips := [4844],
     EIPs := [1559 \<mapsto> eip1559_params, 4844 \<mapsto> eip4844_params] \<rparr>"

definition blob_opts :: TxOptions where
  "blob_opts = \<lparr> opt_common = blob_common, opt_freeze = None \<rparr>"

text \<open>Transaction data with every field absent: \<open>fromTxData({}, { common })\<close>.\<close>

definition empty_txData :: TxData where
  "empty_txData = \<lparr> td_chainId = None, td_nonce = None, td_maxPriorityFeePerGas = None,
     td_maxFeePerGas = None, td_gasLimit = None, td_to = None, td_value = None, td_data = None,
     td_accessList = None, td_maxFeePerDataGas = None, td_versionedHashes = None,
     td_v = None, td_r = None, td_s = None,
     td_blobs = None, td_kzgCommitments = None, td_kzgProofs = None \<rparr>"

definition hash1 :: bytes where
  "hash1 = [1, 2, 3, 4, 5, 6, 7, 8, 9, 10, 11, 12, 13, 14, 15, 16,
            17, 18, 19, 20, 21, 22, 23, 24, 25, 26, 27, 28, 29, 30, 31, 32]"

text \<open>An unsigned transaction to the address 5 with one versioned hash.\<close>

definition unsigned_txData :: TxData where
  "unsigned_txData = empty_txData \<lparr> td_nonce := Some (FromBigInt 7),
     td_maxPriorityFeePerGas := Some (FromBigInt 2), td_maxFeePerGas := Some (FromBigInt 300),
     td_gasLimit := Some (FromBigInt 21000), td_to := Some (FromBytes (address_of 5)),
     td_maxFeePerDataGas := Some (FromBigInt 9), td_versionedHashes := Some [hash1] \<rparr>"

text \<open>The same, signed with y-parity 0.\<close>

definition signed_txData :: TxData where
  "signed_txData = unsigned_txData \<lparr> td_v := Some (FromBigInt 0),
     td_r := Some (FromBigInt 1000), td_s := Some (FromBigInt 2000) \<rparr>"

text \<open>
  Stand-ins for the two functions of the util package, with which the decoder of the
  network wrapper can run: a batch verification that checks the counts only and throws
  when they differ, and a versioned hash that takes the version byte and, in place of the
  digest, the first 31 bytes of the commitment.
\<close>

definition counting_kzg :: "rlp \<Rightarrow> rlp \<Rightarrow> rlp \<Rightarrow> bool option" where
  "counting_kzg bs cs ps =
     (if js_length bs = js_length cs \<and> js_length cs = js_length ps then Some True else None)"

definition prefix_versionedHash :: "js_elem \<Rightarrow> int option \<Rightarrow> bytes option" where
  "prefix_versionedHash commitment version =
     (case (commitment, version) of
        (ItemOf (RBytes c), Some ver) \<Rightarrow> Some (word_of_int ver # take 31 c)
      | _ \<Rightarrow> None)"

definition commitment1 :: bytes where
  "commitment1 = [2, 3, 4, 5, 6, 7, 8, 9, 10, 11, 12, 13, 14, 15, 16,
                  17, 18, 19, 20, 21, 22, 23, 24, 25, 26, 27, 28, 29, 30, 31, 32]"

text \<open>
  The transactions the constructor makes of these data, and the one the decoder of the
  network wrapper returns.
\<close>

definition unsigned_tx :: BlobEIP4844Transaction where
  "unsigned_tx = \<lparr> chainId = 1, nonce = 7, maxPriorityFeePerGas = 2, maxFeePerGas = 300,
     tx_gasLimit = 21000, to = Some (address_of 5), tx_value = 0, tx_data = [],
     accessList = [], maxFeePerDataGas = 9, versionedHashes = [hash1],
     v = None, r = None, s = None, blobs = None, kzgCommitments = None, kzgProofs = None,
     common = blob_common, frozen = True \<rparr>"

definition signed_tx :: BlobEIP4844Transaction where
  "signed_tx = unsigned_tx \<lparr> v := Some 0, r := Some 1000, s := Some 2000 \<rparr>"


text \<open>
  Network wrappers of the unsigned transaction: with one blob, one commitment and one
  proof, and with one blob, one commitment and no proof.
\<close>

definition wrapper_bytes :: bytes where
  "wrapper_bytes = TRANSACTION_TYPE_BYTES @
     RLP_encode (RList [RList (raw unsigned_tx), RList [RBytes [0xb1]],
                        RList [RBytes commitment1], RList [RBytes [0xd1]]])"

definition wrapper_bytes_no_proof :: bytes where
  "wrapper_bytes_no_proof = TRANSACTION_TYPE_BYTES @
     RLP_encode (RList [RList (raw unsigned_tx), RList [RBytes [0xb1]],
                        RList [RBytes commitment1], RList []])"

text \<open>
  What the constructor has checked of a transaction it returns, under the options
  \<open>opts\<close>, the limit \<open>L\<close> and the chain id \<open>cid\<close>.
\<close>

definition constructed :: "nat \<Rightarrow> nat \<Rightarrow> TxOptions \<Rightarrow> BlobEIP4844Transaction \<Rightarrow> bool" where
  "constructed L cid opts t \<longleftrightarrow>
     chainId t = int cid \<and> common t = opt_common opts \<and>
     frozen t = (case opt_freeze opts of None \<Rightarrow> True | Some f \<Rightarrow> f) \<and>
     isActivatedEIP (opt_common opts) 1559 = Inr True \<and>
     isActivatedEIP (opt_common opts) 4844 = Inr True \<and>
     0 \<le> nonce t \<and> fits256 (nonce t) \<and>
     0 \<le> tx_gasLimit t \<and> fits256 (tx_gasLimit t) \<and>
     0 \<le> tx_value t \<and> fits256 (tx_value t) \<and>
     0 \<le> maxFeePerGas t \<and> fits256 (maxFeePerGas t) \<and>
     0 \<le> maxPriorityFeePerGas t \<and> fits256 (maxPriorityFeePerGas t) \<and>
     tx_gasLimit t * maxFeePerGas t \<le> MAX_INTEGER \<and>
     maxPriorityFeePerGas t \<le> maxFeePerGas t \<and>
     0 \<le> maxFeePerDataGas t \<and>
     (case to t of Some a \<Rightarrow> length a = 20 | None \<Rightarrow> True) \<and>
     verifyAccessList (accessList t) \<and>
     (case v t of Some y \<Rightarrow> y = 0 \<or> y = 1 | None \<Rightarrow> True) \<and>
     (case r t of Some x \<Rightarrow> 0 \<le> x \<and> fits256 x | None \<Rightarrow> True) \<and>
     (case s t of Some x \<Rightarrow> 0 \<le> x \<and> fits256 x \<and> x \<le> SECP256K1_ORDER_DIV_2 | None \<Rightarrow> True) \<and>
     checkVersionedHashes (commitmentVersion (opt_common opts)) (versionedHashes t) = Inr () \<and>
     length (versionedHashes t) \<le> L"

text \<open>The RLP payload of the unsigned transaction.\<close>

definition unsigned_payload :: bytes where
  "unsigned_payload =
    [1, 7, 2, 130, 1, 44, 130, 82, 8, 148, 0, 0, 0, 0, 0, 0, 0, 0,
     0, 0, 0, 0, 0, 0, 0, 0, 0, 0, 0, 5, 128, 128, 192, 9, 225, 160, 1, 2, 3,
     4, 5, 6, 7, 8, 9, 10, 11, 12, 13, 14, 15, 16, 17, 18, 19, 20, 21, 22, 23,
     24, 25, 26, 27, 28, 29, 30, 31, 32, 128, 128, 128]"

text \<open>The RLP payload of the signed transaction.\<close>

definition signed_payload :: bytes where
  "signed_payload =
    [1, 7, 2, 130, 1, 44, 130, 82, 8, 148, 0, 0, 0, 0, 0, 0, 0, 0,
     0, 0, 0, 0, 0, 0, 0, 0, 0, 0, 0, 5, 128, 128, 192, 9, 225, 160, 1, 2, 3,
     4, 5, 6, 7, 8, 9, 10, 11, 12, 13, 14, 15, 16, 17, 18, 19, 20, 21, 22, 23,
     24, 25, 26, 27, 28, 29, 30, 31, 32, 128, 130, 3, 232, 130, 7, 208]"

section \<open>Common.param: the resolution order\<close>

lemma first_some_append:
  "first_some (xs @ ys) = (case first_some xs of Some pv \<Rightarrow> Some pv | None \<Rightarrow> first_some ys)"
  by (induction xs rule: first_some.induct) auto

lemma last_some_Nil [simp]: "last_some [] = None"
  by (simp add: last_some_def)

lemma last_some_Cons:
  "last_some (x # xs) = (case last_some xs of Some pv \<Rightarrow> Some pv | None \<Rightarrow> x)"
  by (cases x) (auto simp: last_some_def first_some_append split: option.splits)

lemma paramByEIP_Inr:
  "paramByEIP c topic pname eip = Inr res \<Longrightarrow> res = eip_defines c topic pname eip"
  by (auto simp: paramByEIP_def eip_defines_def split: option.splits)

lemma paramByEIP_known:
  "eip_has_topic c topic eip \<Longrightarrow> paramByEIP c topic pname eip = Inr (eip_defines c topic pname eip)"
  by (auto simp: paramByEIP_def eip_defines_def eip_has_topic_def split: option.splits)

lemma paramByHardfork_eips_Inr:
  "paramByHardfork_eips c topic pname es val = Inr res \<Longrightarrow>
   res = (case last_some (map (eip_defines c topic pname) es) of Some pv \<Rightarrow> Some pv | None \<Rightarrow> val)"
proof (induction es arbitrary: val)
  case Nil
  then show ?case by simp
next
  case (Cons e es)
  from Cons.prems obtain r0 where r0: "paramByEIP c topic pname e = Inr r0"
    and rec: "paramByHardfork_eips c topic pname es (case r0 of Some pv \<Rightarrow> Some pv | None \<Rightarrow> val) = Inr res"
    by (auto split: sum.splits)
  have "r0 = eip_defines c topic pname e" using r0 by (rule paramByEIP_Inr)
  with Cons.IH [OF rec] show ?case
    by (auto simp: last_some_Cons split: option.splits)
qed

lemma paramByHardfork_eips_known:
  "list_all (eip_has_topic c topic) es \<Longrightarrow>
   \<exists>res. paramByHardfork_eips c topic pname es val = Inr res"
  by (induction es arbitrary: val) (auto simp: paramByEIP_known)

lemma paramByHardfork_step_Inr:
  "paramByHardfork_step c topic pname sp val = Inr res \<Longrightarrow>
   res = (case hardfork_sets c topic pname sp of Some pv \<Rightarrow> Some pv | None \<Rightarrow> val)"
  by (auto simp: paramByHardfork_step_def hardfork_sets_def
           dest: paramByHardfork_eips_Inr split: option.splits)

lemma paramByHardfork_step_known:
  "spec_has_topic c topic sp \<Longrightarrow> \<exists>res. paramByHardfork_step c topic pname sp val = Inr res"
  by (auto simp: paramByHardfork_step_def spec_has_topic_def paramByHardfork_eips_known
           split: option.splits)

lemma paramByHardfork_loop_Inr:
  "paramByHardfork_loop c topic pname hf chs val = Inr res \<Longrightarrow>
   res = (case last_some (map (\<lambda>x. hardfork_sets c topic pname (snd x)) (hardforks_upto hf chs)) of
          Some pv \<Rightarrow> Some pv | None \<Rightarrow> val)"
proof (induction chs arbitrary: val)
  case Nil
  then show ?case by simp
next
  case (Cons x chs)
  from Cons.prems obtain v0 where v0: "paramByHardfork_step c topic pname (snd x) val = Inr v0"
    and rest: "if fst x = hf then res = v0 else paramByHardfork_loop c topic pname hf chs v0 = Inr res"
    by (auto split: sum.splits if_splits)
  have eq0: "v0 = (case hardfork_sets c topic pname (snd x) of Some pv \<Rightarrow> Some pv | None \<Rightarrow> val)"
    using v0 by (rule paramByHardfork_step_Inr)
  show ?case
  proof (cases "fst x = hf")
    case True
    with rest eq0 show ?thesis by (simp add: last_some_Cons split: option.splits)
  next
    case False
    with rest have "paramByHardfork_loop c topic pname hf chs v0 = Inr res" by simp
    from Cons.IH [OF this] eq0 False show ?thesis
      by (auto simp: last_some_Cons split: option.splits)
  qed
qed

lemma paramByHardfork_loop_known:
  "list_all (\<lambda>x. spec_has_topic c topic (snd x)) chs \<Longrightarrow>
   \<exists>res. paramByHardfork_loop c topic pname hf chs val = Inr res"
proof (induction chs arbitrary: val)
  case Nil
  then show ?case by simp
next
  case (Cons x chs)
  then obtain v0 where "paramByHardfork_step c topic pname (snd x) val = Inr v0"
    using paramByHardfork_step_known [of c topic "snd x" pname val] by auto
  with Cons show ?case by auto
qed

lemma param_eips_Inr:
  "param_eips c topic pname es = Inr res \<Longrightarrow> res = first_some (map (eip_defines c topic pname) es)"
proof (induction es)
  case Nil
  then show ?case by simp
next
  case (Cons e es)
  from Cons.prems obtain r0 where r0: "paramByEIP c topic pname e = Inr r0"
    by (auto split: sum.splits)
  then have eq0: "r0 = eip_defines c topic pname e" by (rule paramByEIP_Inr)
  show ?case
  proof (cases r0)
    case None
    with Cons r0 eq0 show ?thesis by simp
  next
    case (Some pv)
    with Cons.prems r0 eq0 show ?thesis by (cases "eip_defines c topic pname e") auto
  qed
qed

lemma param_eips_known:
  "list_all (eip_has_topic c topic) es \<Longrightarrow> \<exists>res. param_eips c topic pname es = Inr res"
  by (induction es) (auto simp: paramByEIP_known split: option.splits)

lemma param_Inr: "param c topic pname = Inr pv \<Longrightarrow> pv = param_spec c topic pname"
  by (auto simp: param_def param_spec_def paramByHardfork_def
           dest!: param_eips_Inr paramByHardfork_loop_Inr split: sum.splits option.splits)

lemma param_known: "topic_known c topic \<Longrightarrow> \<exists>pv. param c topic pname = Inr pv"
proof -
  assume k: "topic_known c topic"
  then obtain res where res: "param_eips c topic pname (eips c) = Inr res"
    using param_eips_known [of c topic "eips c" pname] by (auto simp: topic_known_def)
  from k obtain r' where
    r': "paramByHardfork_loop c topic pname (hardfork c) (HARDFORK_CHANGES c) None = Inr r'"
    using paramByHardfork_loop_known [of c topic "HARDFORK_CHANGES c" pname "hardfork c" None]
    by (auto simp: topic_known_def)
  show ?thesis using res r' by (auto simp: param_def paramByHardfork_def split: option.splits)
qed

lemmas london_defs =
  london_common_def chainstart_1559_def chainstart_spec_def london_spec_def eip1559_params_def

lemmas param_defs =
  param_def paramByHardfork_def paramByHardfork_step_def paramByEIP_def

lemma london_activated: "isActivatedEIP london_common 1559 = Inr True"
  by (simp add: isActivatedEIP_def gteHardfork_def hardforkGteHardfork_def london_defs)

lemma london_elasticity: "param london_common ''gasConfig'' ''elasticityMultiplier'' = Inr 2"
  by (simp add: param_defs london_defs)

lemma london_denominator:
  "param london_common ''gasConfig'' ''baseFeeMaxChangeDenominator'' = Inr 8"
  by (simp add: param_defs london_defs)


text \<open>
  Claim C3, amended. For every topic that the consulted tables know (each active EIP, and
  each hardfork of the chain or each EIP it lists, has the topic) and every parameter
  name, \<open>param(topic, name)\<close> returns the value defined by the first active EIP, in the
  order of the EIP list, that defines the parameter; if no active EIP defines it, the
  value set by the latest hardfork up to and including the current one that changes it;
  and 0 if neither defines it. Whenever \<open>param\<close> returns, it returns that value.
\<close>

theorem param_resolution:
  "(param c topic pname = Inr pv \<longrightarrow> pv = param_spec c topic pname) \<and>
   (topic_known c topic \<longrightarrow> param c topic pname = Inr (param_spec c topic pname))"
proof (intro conjI impI)
  assume "param c topic pname = Inr pv"
  then show "pv = param_spec c topic pname" by (rule param_Inr)
next
  assume "topic_known c topic"
  then obtain pv where pv: "param c topic pname = Inr pv" using param_known by blast
  with param_Inr [OF pv] show "param c topic pname = Inr (param_spec c topic pname)" by simp
qed

theorem param_resolution_witness:
  "topic_known chainstart_1559 ''gasConfig'' \<and>
   param chainstart_1559 ''gasConfig'' ''elasticityMultiplier'' = Inr 2 \<and>
   param chainstart_1559 ''gasConfig'' ''minGasLimit'' = Inr 5000 \<and>
   param chainstart_1559 ''gasConfig'' ''unknownName'' = Inr 0"
proof -
  have k: "topic_known chainstart_1559 ''gasConfig''"
    by (simp add: topic_known_def eip_has_topic_def spec_has_topic_def london_defs)
  have s1: "param_spec chainstart_1559 ''gasConfig'' ''elasticityMultiplier'' = 2"
    by (simp add: param_spec_def eip_defines_def london_defs)
  have s2: "param_spec chainstart_1559 ''gasConfig'' ''minGasLimit'' = 5000"
    by (simp add: param_spec_def eip_defines_def hardfork_sets_def last_some_def london_defs)
  have s3: "param_spec chainstart_1559 ''gasConfig'' ''unknownName'' = 0"
    by (simp add: param_spec_def eip_defines_def hardfork_sets_def last_some_def london_defs)
  from param_resolution [of chainstart_1559 "''gasConfig''" "''elasticityMultiplier''" 2]
       param_resolution [of chainstart_1559 "''gasConfig''" "''minGasLimit''" 5000]
       param_resolution [of chainstart_1559 "''gasConfig''" "''unknownName''" 0]
       k s1 s2 s3
  show ?thesis by simp
qed

text \<open>
  For a topic the tables lack, \<open>param\<close> throws \<open>Topic ... not defined\<close> where the claim
  as stated promises 0.
\<close>

theorem param_unknown_topic_counterexample:
  "param london_common ''noSuchTopic'' ''x'' = Inl (TopicNotDefined ''noSuchTopic'') \<and>
   param_spec london_common ''noSuchTopic'' ''x'' = 0"
  by (simp add: param_defs param_spec_def eip_defines_def hardfork_sets_def last_some_def
        london_defs)

section \<open>Common.getHardforkBy: monotone in the block number\<close>

lemma findIndex_ge: "findIndex P xs \<ge> -1"
  by (induction xs) (auto simp: Let_def)

lemma findIndex_less: "findIndex P xs < int (length xs)"
  by (induction xs) (auto simp: Let_def)

lemma firstAbove_range: "0 \<le> firstAbove n hfs \<and> firstAbove n hfs \<le> int (length hfs)"
  using findIndex_ge [of "blockAbove n" hfs] findIndex_less [of "blockAbove n" hfs]
  by (auto simp: firstAbove_def Let_def)

lemma firstAbove_Cons:
  "firstAbove n (hf # hfs) = (if blockAbove n hf then 0 else firstAbove n hfs + 1)"
  using findIndex_ge [of "blockAbove n" hfs] by (auto simp: firstAbove_def Let_def)

lemma blockAbove_mono: "blockAbove (n + 1) hf \<Longrightarrow> blockAbove n hf"
  by (auto simp: blockAbove_def split: option.splits)

lemma firstAbove_mono: "firstAbove n hfs \<le> firstAbove (n + 1) hfs"
proof (induction hfs)
  case Nil
  then show ?case by (simp add: firstAbove_def)
next
  case (Cons hf hfs)
  then show ?case
    using blockAbove_mono [of n hf] firstAbove_range [of "n + 1" hfs]
    by (auto simp: firstAbove_Cons)
qed

lemma stepBack_Suc:
  assumes "Suc h \<le> length hfs"
  shows "stepBack hfs h \<le> stepBack hfs (Suc h)"
proof -
  from assms have "take (Suc h) hfs = take h hfs @ [hfs ! h]"
    by (simp add: take_Suc_conv_app_nth)
  then show ?thesis
    using findIndex_ge [of "\<lambda>hf. hf_block hf \<noteq> None \<or> hf_ttd hf \<noteq> TtdUndefined" "rev (take h hfs)"]
    by (auto simp: stepBack_def Let_def)
qed

lemma stepBack_mono:
  "h \<le> h' \<Longrightarrow> h' \<le> length hfs \<Longrightarrow> stepBack hfs h \<le> stepBack hfs h'"
proof (induction h')
  case 0
  then show ?case by simp
next
  case (Suc h')
  show ?case
  proof (cases "h = Suc h'")
    case True
    then show ?thesis by simp
  next
    case False
    with Suc.prems have "h \<le> h'" "h' \<le> length hfs" by auto
    then have "stepBack hfs h \<le> stepBack hfs h'" by (rule Suc.IH)
    also have "\<dots> \<le> stepBack hfs (Suc h')" using Suc.prems by (intro stepBack_Suc) simp
    finally show ?thesis .
  qed
qed

lemma mergeStep_mono: "i \<le> i' \<Longrightarrow> mergeStep hfs i \<le> mergeStep hfs i'"
  by (cases "i = i'") (auto simp: mergeStep_def)

lemma advance_ge: "i \<le> advance hfs i"
  by (simp add: advance_def)

lemma advance_Suc: "advance hfs i \<le> advance hfs (Suc i)"
proof (cases "Suc i < length hfs")
  case True
  then have "drop i hfs = hfs ! i # hfs ! Suc i # drop (Suc (Suc i)) hfs"
    by (simp add: Cons_nth_drop_Suc Suc_lessD)
  moreover from True have "drop (Suc i) hfs = hfs ! Suc i # drop (Suc (Suc i)) hfs"
    by (simp add: Cons_nth_drop_Suc)
  ultimately show ?thesis by (simp add: advance_def)
next
  case False
  then have "length (drop i hfs) \<le> 1" by simp
  then have "sameRun (drop i hfs) = 0"
    by (cases "drop i hfs" rule: sameRun.cases) auto
  then show ?thesis by (simp add: advance_def)
qed

lemma advance_mono: "i \<le> i' \<Longrightarrow> advance hfs i \<le> advance hfs i'"
proof (induction i')
  case 0
  then show ?case by simp
next
  case (Suc i')
  show ?case
  proof (cases "i = Suc i'")
    case True
    then show ?thesis by simp
  next
    case False
    with Suc.prems have "i \<le> i'" by simp
    then have "advance hfs i \<le> advance hfs i'" by (rule Suc.IH)
    also have "\<dots> \<le> advance hfs (Suc i')" by (rule advance_Suc)
    finally show ?thesis .
  qed
qed

lemma advance_less: "i < length hfs \<Longrightarrow> advance hfs i < length hfs"
proof -
  have "sameRun xs < length xs \<or> xs = []" for xs
    by (induction xs rule: sameRun.induct) auto
  from this [of "drop i hfs"] show "i < length hfs \<Longrightarrow> advance hfs i < length hfs"
    by (auto simp: advance_def)
qed

lemma getHardforkBy_index_block:
  assumes "getHardforkBy_index c (Some n) None None = Inr k"
  defines "hfs \<equiv> filter isApplied (hardforks c)"
  defines "i3 \<equiv> stepBack hfs (nat (firstAbove n hfs))"
  shows "0 \<le> i3 \<and> i3 < int (length hfs) \<and> 0 \<le> mergeStep hfs i3 \<and>
         k = advance hfs (nat (mergeStep hfs i3))"
proof -
  have pred: "(\<lambda>hf. (case (Some n, hf_block hf) of (Some bn, Some b) \<Rightarrow> int b > bn | _ \<Rightarrow> False) \<or>
                    (case (None :: int option, hf_timestamp hf) of (Some ts, Some t) \<Rightarrow> int t > ts | _ \<Rightarrow> False))
              = blockAbove n"
    by (auto simp: blockAbove_def fun_eq_iff split: option.splits)
  show ?thesis
    using assms(1) firstAbove_range [of n hfs]
    unfolding getHardforkBy_index_def pred hfs_def [symmetric] Let_def
    by (auto simp: i3_def stepBack_def firstAbove_def mergeStep_def advance_def Let_def
             split: if_splits sum.splits)
qed

lemma getHardforkBy_index_mono:
  assumes "getHardforkBy_index c (Some n) None None = Inr i"
    and "getHardforkBy_index c (Some (n + 1)) None None = Inr j"
  shows "i \<le> j \<and> j < length (filter isApplied (hardforks c))"
proof -
  let ?hfs = "filter isApplied (hardforks c)"
  note a = getHardforkBy_index_block [OF assms(1)]
  note b = getHardforkBy_index_block [OF assms(2)]
  have "nat (firstAbove n ?hfs) \<le> nat (firstAbove (n + 1) ?hfs)"
    using firstAbove_mono [of n ?hfs] by simp
  moreover have "nat (firstAbove (n + 1) ?hfs) \<le> length ?hfs"
    using firstAbove_range [of "n + 1" ?hfs] by linarith
  ultimately have "stepBack ?hfs (nat (firstAbove n ?hfs)) \<le> stepBack ?hfs (nat (firstAbove (n + 1) ?hfs))"
    by (rule stepBack_mono)
  then have "mergeStep ?hfs (stepBack ?hfs (nat (firstAbove n ?hfs)))
           \<le> mergeStep ?hfs (stepBack ?hfs (nat (firstAbove (n + 1) ?hfs)))"
    by (rule mergeStep_mono)
  then have "nat (mergeStep ?hfs (stepBack ?hfs (nat (firstAbove n ?hfs))))
           \<le> nat (mergeStep ?hfs (stepBack ?hfs (nat (firstAbove (n + 1) ?hfs))))"
    by linarith
  then have "i \<le> j" using a b by (auto intro!: advance_mono)
  moreover have "mergeStep ?hfs (stepBack ?hfs (nat (firstAbove (n + 1) ?hfs))) < int (length ?hfs)"
    using b by (auto simp: mergeStep_def split: if_splits)
  then have "j < length ?hfs"
    using b by (auto intro!: advance_less)
  ultimately show ?thesis by simp
qed

lemma filter_nth_positions:
  "k \<le> k' \<Longrightarrow> k' < length (filter P xs) \<Longrightarrow>
   \<exists>i j. i \<le> j \<and> j < length xs \<and> xs ! i = filter P xs ! k \<and> xs ! j = filter P xs ! k'"
proof (induction xs arbitrary: k k')
  case Nil
  then show ?case by simp
next
  case (Cons x xs)
  show ?case
  proof (cases "P x")
    case False
    with Cons.prems have "k' < length (filter P xs)" by simp
    from Cons.IH [OF Cons.prems(1) this] obtain i j where
      "i \<le> j" "j < length xs" "xs ! i = filter P xs ! k" "xs ! j = filter P xs ! k'" by blast
    with False have "Suc i \<le> Suc j \<and> Suc j < length (x # xs) \<and>
        (x # xs) ! Suc i = filter P (x # xs) ! k \<and> (x # xs) ! Suc j = filter P (x # xs) ! k'"
      by simp
    then show ?thesis by blast
  next
    case True
    show ?thesis
    proof (cases k')
      case 0
      with Cons.prems True have "(0::nat) \<le> 0 \<and> 0 < length (x # xs) \<and>
        (x # xs) ! 0 = filter P (x # xs) ! k \<and> (x # xs) ! 0 = filter P (x # xs) ! k'"
        by simp
      then show ?thesis by blast
    next
      case (Suc m')
      with Cons.prems True have m': "m' < length (filter P xs)" by simp
      show ?thesis
      proof (cases k)
        case 0
        from Cons.IH [of m' m'] m' obtain j where
          "j < length xs" "xs ! j = filter P xs ! m'" by blast
        with True 0 Suc have "0 \<le> Suc j \<and> Suc j < length (x # xs) \<and>
          (x # xs) ! 0 = filter P (x # xs) ! k \<and> (x # xs) ! Suc j = filter P (x # xs) ! k'"
          by simp
        then show ?thesis by blast
      next
        case (Suc m)
        with \<open>k' = Suc m'\<close> Cons.prems have "m \<le> m'" by simp
        from Cons.IH [OF this m'] obtain i j where
          "i \<le> j" "j < length xs" "xs ! i = filter P xs ! m" "xs ! j = filter P xs ! m'" by blast
        with True Suc \<open>k' = Suc m'\<close> have "Suc i \<le> Suc j \<and> Suc j < length (x # xs) \<and>
          (x # xs) ! Suc i = filter P (x # xs) ! k \<and> (x # xs) ! Suc j = filter P (x # xs) ! k'"
          by simp
        then show ?thesis by blast
      qed
    qed
  qed
qed

lemma lastPos_absent: "h \<notin> hf_name ` set hfs \<Longrightarrow> lastPos h hfs index pos = pos"
  by (induction hfs arbitrary: index pos) auto

lemma lastPos_distinct:
  "distinct (map hf_name hfs) \<Longrightarrow> i < length hfs \<Longrightarrow>
   lastPos (hf_name (hfs ! i)) hfs index pos = index + int i"
proof (induction hfs arbitrary: i index pos)
  case Nil
  then show ?case by simp
next
  case (Cons hf hfs)
  show ?case
  proof (cases i)
    case 0
    with Cons.prems show ?thesis by (simp add: lastPos_absent)
  next
    case (Suc m)
    with Cons.prems have "m < length hfs" by simp
    then have "hf_name (hfs ! m) \<in> hf_name ` set hfs" by simp
    moreover from Cons.prems have "hf_name hf \<notin> hf_name ` set hfs" by simp
    ultimately have "hf_name (hfs ! m) \<noteq> hf_name hf" by metis
    with Cons Suc show ?thesis by simp
  qed
qed


text \<open>
  Claim C4. For every chain configuration and every block number \<open>n\<close> such that both
  calls succeed, \<open>getHardforkBy({blockNumber: n+1})\<close> is greater than or equal to
  \<open>getHardforkBy({blockNumber: n})\<close> in the chain's hardfork ordering: the two names
  returned stand at positions \<open>i \<le> j\<close> of the chain's hardfork list, and where the
  names of the list are distinct, \<open>hardforkGteHardfork\<close> says so too.
\<close>

theorem getHardforkBy_monotone:
  assumes "getHardforkBy c (Some n) None None = Inr h1"
    and "getHardforkBy c (Some (n + 1)) None None = Inr h2"
  shows "(\<exists>i j. i \<le> j \<and> j < length (hardforks c) \<and>
            hf_name (hardforks c ! i) = h1 \<and> hf_name (hardforks c ! j) = h2) \<and>
         (distinct (map hf_name (hardforks c)) \<longrightarrow> hardforkGteHardfork c (Some h2) h1)"
proof -
  let ?hfs = "filter isApplied (hardforks c)"
  from assms(1) obtain k where k: "getHardforkBy_index c (Some n) None None = Inr k"
    and h1: "h1 = hf_name (?hfs ! k)"
    by (auto simp: getHardforkBy_def split: sum.splits)
  from assms(2) obtain k' where k': "getHardforkBy_index c (Some (n + 1)) None None = Inr k'"
    and h2: "h2 = hf_name (?hfs ! k')"
    by (auto simp: getHardforkBy_def split: sum.splits)
  from getHardforkBy_index_mono [OF k k'] have "k \<le> k'" "k' < length ?hfs" by simp_all
  from filter_nth_positions [OF this] obtain i j where
    ij: "i \<le> j" "j < length (hardforks c)"
      "hardforks c ! i = ?hfs ! k" "hardforks c ! j = ?hfs ! k'" by blast
  have pos: "\<exists>i j. i \<le> j \<and> j < length (hardforks c) \<and>
            hf_name (hardforks c ! i) = h1 \<and> hf_name (hardforks c ! j) = h2"
  proof (intro exI conjI)
    show "i \<le> j" by (rule ij(1))
    show "j < length (hardforks c)" by (rule ij(2))
    show "hf_name (hardforks c ! i) = h1" using ij(3) h1 by simp
    show "hf_name (hardforks c ! j) = h2" using ij(4) h2 by simp
  qed
  have "hardforkGteHardfork c (Some h2) h1" if d: "distinct (map hf_name (hardforks c))"
  proof -
    from ij have "i < length (hardforks c)" by simp
    from lastPos_distinct [OF d this, of 0 "-1"] ij h1
    have p1: "lastPos h1 (hardforks c) 0 (-1) = int i" by simp
    from lastPos_distinct [OF d ij(2), of 0 "-1"] ij h2
    have p2: "lastPos h2 (hardforks c) 0 (-1) = int j" by simp
    show ?thesis using p1 p2 ij(1) by (simp add: hardforkGteHardfork_def Let_def)
  qed
  with pos show ?thesis by blast
qed

theorem getHardforkBy_monotone_witness:
  "getHardforkBy goerli3 (Some 2) None None = Inr ''berlin'' \<and>
   getHardforkBy goerli3 (Some (2 + 1)) None None = Inr ''london'' \<and>
   distinct (map hf_name (hardforks goerli3)) \<and>
   hardforkGteHardfork goerli3 (Some ''london'') ''berlin''"
proof -
  have a: "getHardforkBy goerli3 (Some 2) None None = Inr ''berlin''" by code_simp
  have b: "getHardforkBy goerli3 (Some (2 + 1)) None None = Inr ''london''" by code_simp
  have d: "distinct (map hf_name (hardforks goerli3))" by (simp add: goerli3_def)
  from getHardforkBy_monotone [OF a b] d show ?thesis using a b by blast
qed

section \<open>Common.forkHash\<close>

lemma bit_length_numeral [simp]:
  "bit_length (numeral k) = Suc (bit_length (numeral k div 2))"
  by (subst bit_length.simps) simp

lemma bit_length_0 [simp]: "bit_length 0 = 0"
  by (subst bit_length.simps) simp

lemma bit_length_1 [simp]: "bit_length (Suc 0) = Suc 0"
  by (subst bit_length.simps) simp

lemma js_Number_safe: "n < 2 ^ 53 \<Longrightarrow> js_Number n = n"
  by (simp add: js_Number_def)

text \<open>Above \<open>2^53\<close> the reading rounds: the eight bytes are those of another number.\<close>

lemma js_Number_rounds: "js_Number 9007199254740993 = 9007199254740992"
  by (simp add: js_Number_def Let_def)

lemma be_bytes_4:
  assumes "16777216 \<le> n" "n < 4294967296"
  shows "be_bytes n = [of_nat (n div 16777216), of_nat (n div 65536 mod 256),
                       of_nat (n div 256 mod 256), of_nat (n mod 256)]"
proof -
  have d: "n div 256 div 256 = n div 65536" "n div 65536 div 256 = n div 16777216"
    "n div 16777216 div 256 = n div 4294967296"
    by (simp_all add: div_mult2_eq [symmetric])
  from assms have nz: "n \<noteq> 0" "n div 256 \<noteq> 0" "n div 65536 \<noteq> 0" "n div 16777216 \<noteq> 0"
    by (simp_all add: div_eq_0_iff)
  from assms have z: "n div 4294967296 = 0" by simp
  from assms have small: "n div 16777216 mod 256 = n div 16777216"
    by (simp add: less_mult_imp_div_less)
  have s0: "be_bytes 0 = []" by (simp add: be_bytes.simps)
  have "be_bytes n = be_bytes (n div 256) @ [of_nat (n mod 256)]"
    using nz(1) by (subst be_bytes.simps) simp
  also have "be_bytes (n div 256) = be_bytes (n div 65536) @ [of_nat (n div 256 mod 256)]"
    using nz(2) d(1) by (subst be_bytes.simps) simp
  also have "be_bytes (n div 65536) = be_bytes (n div 16777216) @ [of_nat (n div 65536 mod 256)]"
    using nz(3) d(2) by (subst be_bytes.simps) simp
  also have "be_bytes (n div 16777216) =
             be_bytes (n div 4294967296) @ [of_nat (n div 16777216 mod 256)]"
    using nz(4) d(3) by (subst be_bytes.simps) simp
  finally show ?thesis using z s0 small by simp
qed

lemma hexdigit_mod: "hexdigit (m mod 16) = hexdigit m"
  by (simp add: hexdigit_def)

lemma hexdigit_hi: "hexdigit (m mod 256 div 16) = hexdigit (m div 16)"
proof -
  have "m mod 256 div 16 = m div 16 mod 16"
    using mod_mult2_eq [of m 16 16] by simp
  then show ?thesis by (simp add: hexdigit_mod)
qed

lemma hexdigit_lo: "hexdigit (m mod 256 mod 16) = hexdigit m"
proof -
  have "m mod 256 mod 16 = m mod 16"
    by (intro mod_mod_cancel) simp
  then show ?thesis by (simp add: hexdigit_mod)
qed

lemma byte_hex:
  "[hexdigit (unat (of_nat m :: byte) div 16), hexdigit (unat (of_nat m :: byte) mod 16)] =
   [hexdigit (m div 16), hexdigit m]"
  by (simp add: unat_of_nat hexdigit_hi hexdigit_lo)

lemma rendering_4:
  assumes "16777216 \<le> n" "n < 4294967296"
  shows "bytesToHex (intToBytes n) = hex4 n"
proof -
  from assms have "n \<noteq> 0" by simp
  then have "bytesToHex (intToBytes n) =
      ''0x'' @ [hexdigit (n div 16777216 div 16), hexdigit (n div 16777216),
               hexdigit (n div 65536 div 16), hexdigit (n div 65536),
               hexdigit (n div 256 div 16), hexdigit (n div 256),
               hexdigit (n div 16), hexdigit n]"
    unfolding bytesToHex_def intToBytes_def bytesToUnprefixedHex_def be_bytes_4 [OF assms]
    using byte_hex [of "n div 16777216"] byte_hex [of "n div 65536"] byte_hex [of "n div 256"]
      byte_hex [of n]
    by (simp add: unat_of_nat hexdigit_hi hexdigit_lo hexdigit_mod)
  also have "\<dots> = hex4 n"
    by (simp add: hex4_def div_mult2_eq [symmetric])
  finally show ?thesis .
qed

lemma forkhash_points_alt:
  "forkhash_points h hfs = remdups_adj (List.map_filter fh_cand (upto_hardfork h hfs))"
  by (simp add: forkhash_points_def fh_cand_def [abs_def])

lemma remdups_adj_Cons_tl: "remdups_adj (x # xs) = x # tl (remdups_adj (x # xs))"
  by (cases xs) auto

lemma tl_remdups_adj_fresh: "x \<notin> set xs \<Longrightarrow> tl (remdups_adj (x # xs)) = remdups_adj xs"
  by (cases xs) auto

lemma fh_cand_pos: "0 \<notin> set (List.map_filter fh_cand hfs)"
  by (induction hfs) (auto simp: map_filter_simps fh_cand_def split: option.splits if_splits)

lemma fh_cand_Number_pos: "0 \<notin> set (List.map_filter fh_cand_Number hfs)"
  by (induction hfs)
     (auto simp: map_filter_simps fh_cand_Number_def split: option.splits if_splits)

lemma calcForkHash_loop_eq:
  "calcForkHash_loop h hfs acc prev =
   acc @ concat (map be8 (tl (remdups_adj (prev # List.map_filter fh_cand_Number (upto_hardfork h hfs)))))"
proof (induction hfs arbitrary: acc prev)
  case Nil
  then show ?case by (simp add: map_filter_simps)
next
  case (Cons hf rest)
  let ?cs = "List.map_filter fh_cand_Number (if hf_name hf = h then [] else upto_hardfork h rest)"
  have rest: "calcForkHash_loop h (hf # rest) acc prev =
      (case fh_cand_Number hf of
         None \<Rightarrow> (if hf_name hf = h then acc else calcForkHash_loop h rest acc prev)
       | Some pv \<Rightarrow>
           if pv = prev then (if hf_name hf = h then acc else calcForkHash_loop h rest acc prev)
           else (if hf_name hf = h then acc @ be8 pv else calcForkHash_loop h rest (acc @ be8 pv) pv))"
    by (auto simp: fh_cand_Number_def activation_def Let_def split: option.splits)
  show ?case
  proof (cases "fh_cand_Number hf")
    case None
    then show ?thesis
      unfolding rest using Cons.IH [of acc prev] by (simp add: map_filter_simps)
  next
    case (Some pv)
    show ?thesis
    proof (cases "pv = prev")
      case True
      with Some show ?thesis
        unfolding rest using Cons.IH [of acc prev] by (simp add: map_filter_simps)
    next
      case False
      have "concat (map be8 (remdups_adj (pv # cs))) =
            be8 pv @ concat (map be8 (tl (remdups_adj (pv # cs))))" for cs
      proof -
        obtain ys where ys: "remdups_adj (pv # cs) = pv # ys"
          using remdups_adj_Cons_tl [of pv cs] by blast
        then show ?thesis by simp
      qed
      with Some False show ?thesis
        unfolding rest using Cons.IH [of "acc @ be8 pv" pv]
        by (auto simp: map_filter_simps)
    qed
  qed
qed

lemma map_filter_eq:
  "(\<And>x. x \<in> set xs \<Longrightarrow> f x = g x) \<Longrightarrow> List.map_filter f xs = List.map_filter g xs"
  by (induction xs) (auto simp: map_filter_simps split: option.splits)

lemma fh_cand_safe:
  "(case activation hf of Some a \<Rightarrow> a < 2 ^ 53 | None \<Rightarrow> True) \<Longrightarrow> fh_cand_Number hf = fh_cand hf"
  by (auto simp: fh_cand_Number_def fh_cand_def js_Number_safe split: option.splits)

lemma calcForkHash_loop_spec:
  assumes "safe_activations h hfs"
  shows "calcForkHash_loop h hfs [] 0 = concat (map be8 (forkhash_points h hfs))"
proof -
  have "List.map_filter fh_cand_Number (upto_hardfork h hfs) =
        List.map_filter fh_cand (upto_hardfork h hfs)"
    using assms
    by (intro map_filter_eq fh_cand_safe) (simp add: safe_activations_def list_all_iff)
  moreover have "calcForkHash_loop h hfs [] 0 =
      concat (map be8 (remdups_adj (List.map_filter fh_cand_Number (upto_hardfork h hfs))))"
    by (simp add: calcForkHash_loop_eq tl_remdups_adj_fresh fh_cand_Number_pos)
  ultimately show ?thesis by (simp add: forkhash_points_alt)
qed

lemma sint_mod: "sint (w :: 32 word) mod 2 ^ 32 = uint w"
proof -
  have "sint w mod 2 ^ 32 = take_bit 32 (sint w)" by (simp add: take_bit_eq_mod)
  also have "\<dots> = take_bit 32 (signed_take_bit 31 (uint w))" by (simp add: sint_uint)
  also have "\<dots> = take_bit 32 (uint w)" by (simp add: take_bit_signed_take_bit)
  also have "\<dots> = uint w"
    using uint_lt2p [of w] by (intro take_bit_int_eq_self) simp_all
  finally show ?thesis .
qed

lemma crc_unsigned: "nat (crc bs mod 4294967296) = crc32 bs"
  using sint_mod [of "NOT (foldl crc32_byte 0xFFFFFFFF bs)"] by (simp add: crc_def crc32_def)

lemma crc32_less: "crc32 bs < 4294967296"
  using unsigned_less [of "NOT (foldl crc32_byte 0xFFFFFFFF bs)", where 'a = nat]
  by (simp add: crc32_def)

text \<open>
  Claim C5, amended. For every hardfork \<open>h\<close> of the chain with a known activation point
  and every genesis hash \<open>g\<close>: when the configuration of \<open>h\<close> stores a fork hash,
  \<open>forkHash(h, g)\<close> returns the stored value; otherwise, when the activation points of the
  hardforks up to \<open>h\<close> are safe integers (below \<open>2^53\<close>) and the checksum is at least
  \<open>2^24\<close>, it returns the unsigned CRC32, rendered as 4-byte hex, of \<open>g\<close> followed by the
  eight big-endian bytes of the activation point (timestamp if present, else block) of
  every scheduled hardfork up to \<open>h\<close> whose activation is strictly after genesis, skipping
  the merge hardfork and any hardfork whose activation point equals the previously
  included one.
\<close>

theorem forkHash_spec:
  assumes "getHardfork (hardforks c) h = Some d"
    and "hf_block d \<noteq> None \<or> hf_timestamp d \<noteq> None \<or> hf_ttd d \<noteq> TtdUndefined"
  shows "(\<forall>stored. hf_forkHash d = Some stored \<longrightarrow>
            forkHash c (Some h) (Some g) = Inr stored) \<and>
         (hf_forkHash d = None \<and> safe_activations h (hardforks c) \<and>
          2 ^ 24 \<le> crc32 (forkhash_input c h g) \<longrightarrow>
            forkHash c (Some h) (Some g) = Inr (hex4 (crc32 (forkhash_input c h g))))"
proof (intro conjI allI impI)
  fix stored
  assume "hf_forkHash d = Some stored"
  with assms show "forkHash c (Some h) (Some g) = Inr stored"
    by (auto simp: forkHash_def)
next
  assume a: "hf_forkHash d = None \<and> safe_activations h (hardforks c) \<and>
             2 ^ 24 \<le> crc32 (forkhash_input c h g)"
  then have "calcForkHash c h g = bytesToHex (intToBytes (crc32 (forkhash_input c h g)))"
    by (simp add: calcForkHash_def forkhash_input_def calcForkHash_loop_spec crc_unsigned)
  also have "\<dots> = hex4 (crc32 (forkhash_input c h g))"
    using a crc32_less [of "forkhash_input c h g"] by (intro rendering_4) simp_all
  finally show "forkHash c (Some h) (Some g) = Inr (hex4 (crc32 (forkhash_input c h g)))"
    using assms a by (auto simp: forkHash_def)
qed

lemma be8_homestead: "be8 1150000 = [0, 0, 0, 0, 0, 0x11, 0x8c, 0x30]"
  apply (simp add: be8_def be_bytes.simps)
  apply (simp add: eval_nat_numeral)
  done

lemma hex4_homestead: "hex4 0x97c2c34c = ''0x97c2c34c''"
  by (simp add: hex4_def hexdigit_def)

lemma hex4_zero_genesis: "hex4 0x190a55ad = ''0x190a55ad''"
  by (simp add: hex4_def hexdigit_def)

lemma fold_zero_genesis: "foldl crc32_byte 0xFFFFFFFF zero_genesis = 0xe6f5aa52"
  by (simp add: crc32_byte_def crc32_bit_def zero_genesis_def)

lemma crc32_zero_genesis: "crc32 zero_genesis = 0x190a55ad"
  unfolding crc32_def fold_zero_genesis by simp

lemma fold_homestead:
  "foldl crc32_byte 0xFFFFFFFF (mainnet_genesis @ [0, 0, 0, 0, 0, 0x11, 0x8c, 0x30]) = 0x683d3cb3"
  by (simp add: crc32_byte_def crc32_bit_def mainnet_genesis_def)

lemma crc32_homestead:
  "crc32 (mainnet_genesis @ [0, 0, 0, 0, 0, 0x11, 0x8c, 0x30]) = 0x97c2c34c"
  unfolding crc32_def fold_homestead by simp

lemma points_homestead: "forkhash_points ''homestead'' (hardforks stored_chain) = [1150000]"
  by (simp add: forkhash_points_def stored_chain_def map_filter_simps activation_def
        Hardfork_Paris_def)

lemma points_chainstart: "forkhash_points ''chainstart'' (hardforks stored_chain) = []"
  by (simp add: forkhash_points_def stored_chain_def map_filter_simps activation_def
        Hardfork_Paris_def)

lemma safe_homestead: "safe_activations ''homestead'' (hardforks stored_chain)"
  by (simp add: safe_activations_def stored_chain_def activation_def)

text \<open>
  The witness is the second test vector of EIP-2124: mainnet's genesis hash and Homestead
  at block 1150000 give the fork hash \<open>0x97c2c34c\<close>.
\<close>

theorem forkHash_spec_witness:
  "getHardfork (hardforks stored_chain) ''homestead'' =
     Some \<lparr> hf_name = ''homestead'', hf_block = Some 1150000, hf_ttd = TtdUndefined,
            hf_timestamp = None, hf_forkHash = None \<rparr> \<and>
   safe_activations ''homestead'' (hardforks stored_chain) \<and>
   (2 :: nat) ^ 24 \<le> crc32 (forkhash_input stored_chain ''homestead'' mainnet_genesis) \<and>
   forkHash stored_chain (Some ''homestead'') (Some mainnet_genesis) = Inr ''0x97c2c34c''"
proof -
  let ?d = "\<lparr> hf_name = ''homestead'', hf_block = Some 1150000, hf_ttd = TtdUndefined,
              hf_timestamp = None, hf_forkHash = None \<rparr>"
  have a: "getHardfork (hardforks stored_chain) ''homestead'' = Some ?d"
    by (simp add: stored_chain_def)
  have b: "hf_block ?d \<noteq> None \<or> hf_timestamp ?d \<noteq> None \<or> hf_ttd ?d \<noteq> TtdUndefined"
    by simp
  have i: "forkhash_input stored_chain ''homestead'' mainnet_genesis =
        mainnet_genesis @ [0, 0, 0, 0, 0, 0x11, 0x8c, 0x30]"
    by (simp add: forkhash_input_def points_homestead be8_homestead)
  have big: "(2 :: nat) ^ 24 \<le> crc32 (forkhash_input stored_chain ''homestead'' mainnet_genesis)"
    unfolding i crc32_homestead by simp
  from forkHash_spec [OF a b, of mainnet_genesis] safe_homestead big
  have "forkHash stored_chain (Some ''homestead'') (Some mainnet_genesis) =
        Inr (hex4 (crc32 (forkhash_input stored_chain ''homestead'' mainnet_genesis)))"
    by simp
  then have "forkHash stored_chain (Some ''homestead'') (Some mainnet_genesis) = Inr ''0x97c2c34c''"
    unfolding i crc32_homestead hex4_homestead .
  with a safe_homestead big show ?thesis by blast
qed

text \<open>
  The claim as stated fails where the configuration stores a fork hash: the stored value
  comes back whatever the genesis hash is.
\<close>

theorem forkHash_stored_counterexample:
  "forkHash stored_chain (Some ''chainstart'') (Some zero_genesis) = Inr ''0xfc64ec04'' \<and>
   hex4 (crc32 (forkhash_input stored_chain ''chainstart'' zero_genesis)) = ''0x190a55ad'' \<and>
   forkHash stored_chain (Some ''chainstart'') (Some zero_genesis) \<noteq>
     Inr (hex4 (crc32 (forkhash_input stored_chain ''chainstart'' zero_genesis)))"
proof -
  have "forkHash stored_chain (Some ''chainstart'') (Some zero_genesis) = Inr ''0xfc64ec04''"
    by (simp add: forkHash_def stored_chain_def)
  moreover have "forkhash_input stored_chain ''chainstart'' zero_genesis = zero_genesis"
    by (simp add: forkhash_input_def points_chainstart)
  ultimately show ?thesis
    by (simp add: crc32_zero_genesis hex4_zero_genesis)
qed

text \<open>
  A checksum below \<open>2^24\<close> is printed with three bytes, not four: \<open>intToBytes\<close> keeps no
  leading zero byte. The amended claim leaves this case out.
\<close>

lemma fold_small_genesis: "foldl crc32_byte 0xFFFFFFFF small_genesis = 0xff999c23"
  by (simp add: crc32_byte_def crc32_bit_def small_genesis_def)

lemma crc32_small_genesis: "crc32 small_genesis = 0x6663dc"
  unfolding crc32_def fold_small_genesis by simp

lemma be_bytes_small: "be_bytes 0x6663dc = [0x66, 0x63, 0xdc]"
  by (simp add: be_bytes.simps)

lemma forkHash_short_rendering:
  "forkHash chainstart_chain (Some ''chainstart'') (Some small_genesis) = Inr ''0x6663dc'' \<and>
   hex4 (crc32 (forkhash_input chainstart_chain ''chainstart'' small_genesis)) = ''0x006663dc''"
proof -
  have p: "forkhash_points ''chainstart'' (hardforks chainstart_chain) = []"
    by (simp add: forkhash_points_def chainstart_chain_def map_filter_simps activation_def)
  have "safe_activations ''chainstart'' (hardforks chainstart_chain)"
    by (simp add: safe_activations_def chainstart_chain_def activation_def)
  then have "calcForkHash chainstart_chain ''chainstart'' small_genesis =
        bytesToHex (intToBytes (crc32 small_genesis))"
    by (simp add: calcForkHash_def calcForkHash_loop_spec p crc_unsigned)
  also have "\<dots> = ''0x6663dc''"
    by (simp add: crc32_small_genesis intToBytes_def be_bytes_small bytesToHex_def
          bytesToUnprefixedHex_def hexdigit_def)
  finally have "forkHash chainstart_chain (Some ''chainstart'') (Some small_genesis) =
                Inr ''0x6663dc''"
    by (simp add: forkHash_def chainstart_chain_def)
  moreover have "hex4 (crc32 (forkhash_input chainstart_chain ''chainstart'' small_genesis)) =
                 ''0x006663dc''"
    by (simp add: forkhash_input_def p crc32_small_genesis hex4_def hexdigit_def)
  ultimately show ?thesis by simp
qed
section \<open>BlockHeader.calcNextBaseFee\<close>

lemma bigint_div_mult_cancel: "t \<noteq> 0 \<Longrightarrow> bigint_div (b * t) t = b"
proof -
  assume t: "t \<noteq> 0"
  have "\<bar>b * t\<bar> div \<bar>t\<bar> = \<bar>b\<bar>" using t by (simp add: abs_mult)
  moreover have "sgn (b * t) * sgn t = sgn b"
  proof -
    have "sgn t * sgn t = 1" using t by (simp add: sgn_if)
    then show ?thesis by (simp add: sgn_mult mult.assoc)
  qed
  ultimately show ?thesis by (simp add: bigint_div_def mult_sgn_abs)
qed

lemma bigint_div_dvd:
  assumes "0 < d" "0 < b" "d dvd b"
  shows "d * (b + max 1 (bigint_div b d)) = b * (d + 1)"
proof -
  from assms obtain k where k: "b = d * k" by (auto simp: dvd_def)
  with assms have k0: "0 < k" by (simp add: zero_less_mult_iff)
  moreover from assms k k0 have "bigint_div b d = k"
    by (simp add: bigint_div_def sgn_if abs_mult)
  ultimately show ?thesis using k by (simp add: algebra_simps max_def)
qed

lemma bigint_div_dvd_conv:
  assumes "0 < d" and eq: "d * (b + max 1 (bigint_div b d)) = b * (d + 1)"
  shows "0 < b \<and> d dvd b"
proof -
  from eq have b: "b = d * max 1 (bigint_div b d)"
    by (simp add: algebra_simps)
  have "0 < max 1 (bigint_div b d)" by simp
  with assms(1) have "0 < d * max 1 (bigint_div b d)"
    by (simp only: mult_pos_pos)
  with b have "0 < b" by simp
  moreover from b have "d dvd b" by (metis dvd_triv_left)
  ultimately show ?thesis by simp
qed

text \<open>
  Claim C8, amended. For every block header with EIP-1559 active, gas limit \<open>G\<close>, base
  fee \<open>b\<close> and elasticity multiplier \<open>e \<noteq> 0\<close>: if \<open>gasUsed\<close> equals the gas target
  \<open>G / e\<close>, \<open>calcNextBaseFee()\<close> returns \<open>b\<close> unchanged; if \<open>gasUsed\<close> equals twice a
  positive gas target, it returns \<open>b + max(1, b / d)\<close> for the denominator
  \<open>d = baseFeeMaxChangeDenominator \<noteq> 0\<close> (division of \<open>bigint\<close>s). For a positive
  denominator this value is \<open>b \<times> (1 + 1/d)\<close>, that is \<open>d \<times> value = b \<times> (d + 1)\<close>, if and only
  if \<open>b\<close> is a positive multiple of \<open>d\<close>.
\<close>

theorem calcNextBaseFee_at_target:
  assumes "isActivatedEIP c 1559 = Inr True"
    and "param c ''gasConfig'' ''elasticityMultiplier'' = Inr e" and "e \<noteq> 0"
    and "baseFeePerGas h = Some b"
  shows "(gasUsed h = bigint_div (gasLimit h) e \<longrightarrow> calcNextBaseFee c h = Inr (Some b)) \<and>
         (gasUsed h = 2 * bigint_div (gasLimit h) e \<and> 0 < bigint_div (gasLimit h) e \<and>
          param c ''gasConfig'' ''baseFeeMaxChangeDenominator'' = Inr d \<and> d \<noteq> 0 \<longrightarrow>
            calcNextBaseFee c h = Inr (Some (b + max 1 (bigint_div b d))) \<and>
            (0 < d \<longrightarrow>
               (d * (b + max 1 (bigint_div b d)) = b * (d + 1) \<longleftrightarrow> 0 < b \<and> d dvd b)))"
proof (intro conjI impI)
  assume "gasUsed h = bigint_div (gasLimit h) e"
  with assms show "calcNextBaseFee c h = Inr (Some b)"
    by (simp add: calcNextBaseFee_def)
next
  assume a: "gasUsed h = 2 * bigint_div (gasLimit h) e \<and> 0 < bigint_div (gasLimit h) e \<and>
          param c ''gasConfig'' ''baseFeeMaxChangeDenominator'' = Inr d \<and> d \<noteq> 0"
  let ?t = "bigint_div (gasLimit h) e"
  from a have "bigint_div (b * ?t) ?t = b" by (intro bigint_div_mult_cancel) simp
  with a assms show "calcNextBaseFee c h = Inr (Some (b + max 1 (bigint_div b d)))"
    by (simp add: calcNextBaseFee_def Let_def max_def)
next
  assume "0 < d"
  then show "d * (b + max 1 (bigint_div b d)) = b * (d + 1) \<longleftrightarrow> 0 < b \<and> d dvd b"
    using bigint_div_dvd [of d b] bigint_div_dvd_conv [of d b] by blast
qed

theorem calcNextBaseFee_at_target_witness:
  "isActivatedEIP london_common 1559 = Inr True \<and>
   param london_common ''gasConfig'' ''elasticityMultiplier'' = Inr 2 \<and>
   param london_common ''gasConfig'' ''baseFeeMaxChangeDenominator'' = Inr 8 \<and>
   gasUsed header_at_target = bigint_div (gasLimit header_at_target) 2 \<and>
   calcNextBaseFee london_common header_at_target = Inr (Some 800) \<and>
   gasUsed header_fee800 = 2 * bigint_div (gasLimit header_fee800) 2 \<and>
   (8::int) dvd 800 \<and>
   calcNextBaseFee london_common header_fee800 = Inr (Some 900) \<and>
   (8::int) * 900 = 800 * (8 + 1)"
proof -
  have t1: "gasUsed header_at_target = bigint_div (gasLimit header_at_target) 2"
    by (simp add: header_at_target_def bigint_div_def)
  have t2: "gasUsed header_fee800 = 2 * bigint_div (gasLimit header_fee800) 2"
    and t3: "0 < bigint_div (gasLimit header_fee800) 2"
    by (simp_all add: header_fee800_def bigint_div_def)
  have b1: "baseFeePerGas header_at_target = Some 800" by (simp add: header_at_target_def)
  have b2: "baseFeePerGas header_fee800 = Some 800" by (simp add: header_fee800_def)
  have m: "(800::int) + max 1 (bigint_div 800 8) = 900" by (simp add: bigint_div_def)
  from calcNextBaseFee_at_target [OF london_activated london_elasticity _ b1, of 8] t1
  have "calcNextBaseFee london_common header_at_target = Inr (Some 800)" by simp
  moreover
  from calcNextBaseFee_at_target [OF london_activated london_elasticity _ b2, of 8]
    t2 t3 london_denominator m
  have "calcNextBaseFee london_common header_fee800 = Inr (Some 900)" by simp
  ultimately show ?thesis
    using london_activated london_elasticity london_denominator t1 t2 by simp
qed

text \<open>
  With a base fee of 7 and the denominator 8 the increase is the minimum 1: the next
  base fee is 8, and \<open>8 \<times> 8 \<noteq> 7 \<times> 9\<close>.
\<close>

theorem calcNextBaseFee_small_fee_counterexample:
  "gasUsed header_fee7 = 2 * bigint_div (gasLimit header_fee7) 2 \<and>
   baseFeePerGas header_fee7 = Some 7 \<and>
   calcNextBaseFee london_common header_fee7 = Inr (Some 8) \<and>
   (8::int) * 8 \<noteq> 7 * (8 + 1)"
  by (simp add: calcNextBaseFee_def london_activated london_elasticity london_denominator
        header_fee7_def bigint_div_def)

section \<open>getActivePrecompiles\<close>





























section \<open>The EIP-4844 blob transaction: constructor, codec and network wrapper\<close>

lemma bind_err_Inr: "bind_err m f = Inr y \<longleftrightarrow> (\<exists>x. m = Inr x \<and> f x = Inr y)"
  by (cases m) (auto simp: bind_err_def)

lemma bind_err_Inr_simp [simp]: "bind_err (Inr x) f = f x"
  by (simp add: bind_err_def)

lemma bind_err_Inl_simp [simp]: "bind_err (Inl e) f = Inl e"
  by (simp add: bind_err_def)

lemma throw_if_Inr: "throw_if b e = Inr u \<longleftrightarrow> \<not> b"
  by (simp add: throw_if_def)

lemma throw_if_False [simp]: "throw_if False e = Inr ()"
  by (simp add: throw_if_def)

lemma throw_if_True [simp]: "throw_if True e = Inl e"
  by (simp add: throw_if_def)

lemma lift_common_Inr: "lift_common m = Inr x \<longleftrightarrow> m = Inr x"
  by (cases m) (auto simp: lift_common_def)

lemma checkVersionedHashes_Inr:
  "checkVersionedHashes version hashes = Inr u \<Longrightarrow> h \<in> set hashes \<Longrightarrow>
   length h = 32 \<and> version = Inr (Some (uint (hd h)))"
  by (induction hashes) (auto split: if_splits sum.splits)

text \<open>What every constructed transaction satisfies.\<close>

lemma new_hashes:
  assumes "BlobEIP4844Transaction_new L cid txData opts = Inr t"
  shows "length (versionedHashes t) \<le> L"
    and "\<forall>h \<in> set (versionedHashes t). length h = 32 \<and>
           commitmentVersion (opt_common opts) = Inr (Some (uint (hd h)))"
  using assms
  by (auto simp: BlobEIP4844Transaction_new_def Let_def bind_err_Inr throw_if_Inr
           dest: checkVersionedHashes_Inr)

lemmas blob_defs =
  blob_common_def blob_opts_def london_common_def chainstart_spec_def london_spec_def
  eip1559_params_def eip4844_params_def

lemma blob_activated:
  "isActivatedEIP blob_common 1559 = Inr True" "isActivatedEIP blob_common 4844 = Inr True"
  by (simp_all add: isActivatedEIP_def gteHardfork_def hardforkGteHardfork_def blob_defs)

lemma blob_version: "commitmentVersion blob_common = Inr (Some 1)"
  by (simp add: commitmentVersion_def lift_common_def paramByEIP_def blob_defs)

lemma bytesToBigInt_Nil [simp]: "bytesToBigInt [] = 0"
  by (simp add: bytesToBigInt_def)

lemma fits256_small [simp]: "fits256 0"
  by (simp add: fits256_def MAX_INTEGER_def)

lemma BaseTransaction_empty:
  "BaseTransaction empty_txData =
   Inr \<lparr> b_nonce = 0, b_gasLimit = 0, b_to = None, b_value = 0, b_data = [],
         b_v = None, b_r = None, b_s = None \<rparr>"
  by (simp add: BaseTransaction_def empty_txData_def toBytes_def toBigInt_def toOptBigInt_def)

lemma empty_fields:
  "td_chainId empty_txData = None" "td_accessList empty_txData = None"
  "td_maxFeePerGas empty_txData = None" "td_maxPriorityFeePerGas empty_txData = None"
  "td_maxFeePerDataGas empty_txData = None" "td_versionedHashes empty_txData = None"
  "td_blobs empty_txData = None" "td_kzgCommitments empty_txData = None"
  "td_kzgProofs empty_txData = None"
  by (simp_all add: empty_txData_def)

lemma bytesToBigInt_snoc: "bytesToBigInt (bs @ [b]) = bytesToBigInt bs * 256 + uint b"
  by (simp add: bytesToBigInt_def)

lemma bytesToBigInt_nonneg: "0 \<le> bytesToBigInt bs"
  by (induction bs rule: rev_induct) (simp_all add: bytesToBigInt_snoc)

lemma be_bytes_empty: "be_bytes n = [] \<longleftrightarrow> n = 0"
  by (subst be_bytes.simps) simp

lemma be_bytes_0 [simp]: "be_bytes 0 = []"
  by (subst be_bytes.simps) simp

lemma bytesToBigInt_be_bytes: "bytesToBigInt (be_bytes n) = int n"
proof (induction n rule: be_bytes.induct)
  case (1 n)
  show ?case
  proof (cases "n = 0")
    case True
    then show ?thesis by simp
  next
    case False
    with 1 have ih: "bytesToBigInt (be_bytes (n div 256)) = int (n div 256)" by simp
    have u: "uint (of_nat (n mod 256) :: byte) = int (n mod 256)"
      by (simp add: uint_nat unat_of_nat)
    have "be_bytes n = be_bytes (n div 256) @ [of_nat (n mod 256)]"
      using False by (subst be_bytes.simps) simp
    then have "bytesToBigInt (be_bytes n) = int (n div 256) * 256 + int (n mod 256)"
      by (simp only: bytesToBigInt_snoc ih u)
    also have "\<dots> = int n"
      by (metis mult.commute of_nat_add of_nat_mult of_nat_numeral div_mult_mod_eq)
    finally show ?thesis .
  qed
qed

lemma byte_nonzero: "n < 256 \<Longrightarrow> n \<noteq> 0 \<Longrightarrow> (of_nat n :: byte) \<noteq> 0"
proof -
  assume a: "n < 256" "n \<noteq> 0"
  have "unat (of_nat n :: byte) = n mod 256" by (simp add: unat_of_nat)
  with a have "unat (of_nat n :: byte) = n" by simp
  with a show ?thesis by auto
qed

lemma be_bytes_hd: "n \<noteq> 0 \<Longrightarrow> hd (be_bytes n) \<noteq> 0"
proof (induction n rule: be_bytes.induct)
  case (1 n)
  have eq: "be_bytes n = be_bytes (n div 256) @ [of_nat (n mod 256)]"
    using 1(2) by (subst be_bytes.simps) simp
  show ?case
  proof (cases "n div 256 = 0")
    case True
    with 1 have "n < 256" "n \<noteq> 0" by (auto simp: div_eq_0_iff)
    then have "(of_nat n :: byte) \<noteq> 0" by (rule byte_nonzero)
    with True \<open>n < 256\<close> show ?thesis unfolding eq by simp
  next
    case False
    with 1 have "hd (be_bytes (n div 256)) \<noteq> 0" by simp
    moreover from False have "be_bytes (n div 256) \<noteq> []" by (simp add: be_bytes_empty)
    ultimately show ?thesis unfolding eq by simp
  qed
qed

lemma noLeadingZeroes_unpadded: "noLeadingZeroes (Some (bigIntToUnpaddedBytes n))"
proof (cases "be_bytes (nat n)")
  case Nil
  then show ?thesis by (simp add: noLeadingZeroes_def bigIntToUnpaddedBytes_def)
next
  case (Cons b bs)
  then have "nat n \<noteq> 0" using be_bytes_empty [of "nat n"] by auto
  from be_bytes_hd [OF this] Cons show ?thesis
    by (simp add: noLeadingZeroes_def bigIntToUnpaddedBytes_def)
qed

lemma be_bytes_numeral [simp]:
  "be_bytes (numeral k) = be_bytes (numeral k div 256) @ [of_nat (numeral k mod 256)]"
  by (subst be_bytes.simps) simp

lemma be_bytes_1 [simp]: "be_bytes (Suc 0) = [1]"
  by (subst be_bytes.simps) simp

lemma raw_unsigned:
  "raw unsigned_tx =
     [RBytes [1], RBytes [7], RBytes [2], RBytes [1, 44], RBytes [82, 8],
      RBytes (address_of 5), RBytes [], RBytes [], RList [], RBytes [9],
      RList [RBytes hash1], RBytes [], RBytes [], RBytes []]"
  by (simp add: raw_def unsigned_tx_def bigIntToUnpaddedBytes_def accessList_rlp_def
        opt_unpadded_def)

lemma payload_unsigned: "concat (map RLP_encode (raw unsigned_tx)) = unsigned_payload"
  by (simp add: raw_unsigned encodeLength_def address_of_def hash1_def unsigned_payload_def)

lemma length_unsigned_payload: "length unsigned_payload = 71"
  by (simp add: unsigned_payload_def)

lemma encodeLength_71: "encodeLength 71 192 = [248, 71]"
  by (simp add: encodeLength_def)

lemma serialize_unsigned: "serialize RLP_encode unsigned_tx = [3, 248, 71] @ unsigned_payload"
  by (simp add: serialize_def TRANSACTION_TYPE_BYTES_def Let_def payload_unsigned
        length_unsigned_payload encodeLength_71)

lemma decode_unsigned:
  "RLP_decode ([248, 71] @ unsigned_payload) = Some (RList (raw unsigned_tx))"
  by (simp add: RLP_decode_def raw_unsigned long_payload_def be_nat_def address_of_def hash1_def
        unsigned_payload_def)

lemma toBigInt_nonneg: "toBigInt x = Inr n \<Longrightarrow> 0 \<le> n"
  by (auto simp: toBigInt_def bytesToBigInt_nonneg split: sum.splits)

lemma toOptBigInt_nonneg: "toOptBigInt x = Inr (Some n) \<Longrightarrow> 0 \<le> n"
  by (auto simp: toOptBigInt_def bytesToBigInt_nonneg split: sum.splits if_splits)

lemma BaseTransaction_inv:
  assumes "BaseTransaction txData = Inr base"
  shows "0 \<le> b_nonce base \<and> fits256 (b_nonce base) \<and>
         0 \<le> b_gasLimit base \<and> fits256 (b_gasLimit base) \<and>
         0 \<le> b_value base \<and> fits256 (b_value base) \<and>
         (case b_to base of Some a \<Rightarrow> length a = 20 | None \<Rightarrow> True) \<and>
         (case b_v base of Some y \<Rightarrow> 0 \<le> y | None \<Rightarrow> True) \<and>
         (case b_r base of Some x \<Rightarrow> 0 \<le> x \<and> fits256 x | None \<Rightarrow> True) \<and>
         (case b_s base of Some x \<Rightarrow> 0 \<le> x \<and> fits256 x | None \<Rightarrow> True)"
proof -
  from assms obtain toB vv rr ss n g val d where
    parts: "toBytes (td_to txData) = Inr toB" "toOptBigInt (td_v txData) = Inr vv"
      "toOptBigInt (td_r txData) = Inr rr" "toOptBigInt (td_s txData) = Inr ss"
      "toBigInt (td_nonce txData) = Inr n" "toBigInt (td_gasLimit txData) = Inr g"
      "toBigInt (td_value txData) = Inr val"
    and len: "\<not> (length toB > 0 \<and> length toB \<noteq> 20)"
    and fits: "fits256 val \<and> (case rr of Some x \<Rightarrow> fits256 x | None \<Rightarrow> True) \<and>
               (case ss of Some x \<Rightarrow> fits256 x | None \<Rightarrow> True) \<and> fits256 g \<and> fits256 n"
    and base: "base = \<lparr> b_nonce = n, b_gasLimit = g,
           b_to = (if length toB > 0 then Some toB else None),
           b_value = val, b_data = d, b_v = vv, b_r = rr, b_s = ss \<rparr>"
    unfolding BaseTransaction_def bind_err_Inr throw_if_Inr by (elim exE conjE) (simp, blast)
  from parts have "0 \<le> n" "0 \<le> g" "0 \<le> val"
    by (auto dest: toBigInt_nonneg)
  moreover from parts have "case vv of Some y \<Rightarrow> 0 \<le> y | None \<Rightarrow> True"
    "case rr of Some y \<Rightarrow> 0 \<le> y | None \<Rightarrow> True" "case ss of Some y \<Rightarrow> 0 \<le> y | None \<Rightarrow> True"
    by (auto dest: toOptBigInt_nonneg split: option.splits)
  ultimately show ?thesis using len fits base by (auto split: option.splits)
qed

lemma new_constructed:
  assumes "BlobEIP4844Transaction_new L cid txData opts = Inr t"
  shows "constructed L cid opts t"
proof -
  let ?c = "opt_common opts"
  let ?al = "case td_accessList txData of None \<Rightarrow> [] | Some l \<Rightarrow> l"
  let ?hs = "case td_versionedHashes txData of None \<Rightarrow> [] | Some hs \<Rightarrow> hs"
  from assms have "\<exists>base maxFee maxPrio maxDataFee.
      BaseTransaction txData = Inr base \<and>
      isActivatedEIP ?c 1559 = Inr True \<and> isActivatedEIP ?c 4844 = Inr True \<and>
      verifyAccessList ?al \<and>
      toBigInt (td_maxFeePerGas txData) = Inr maxFee \<and>
      toBigInt (td_maxPriorityFeePerGas txData) = Inr maxPrio \<and>
      fits256 maxFee \<and> fits256 maxPrio \<and> \<not> b_gasLimit base * maxFee > MAX_INTEGER \<and>
      \<not> maxFee < maxPrio \<and>
      toBigInt (td_maxFeePerDataGas txData) = Inr maxDataFee \<and>
      \<not> (case b_v base of Some y \<Rightarrow> y \<noteq> 0 \<and> y \<noteq> 1 | None \<Rightarrow> False) \<and>
      \<not> (case b_s base of Some x \<Rightarrow> x > SECP256K1_ORDER_DIV_2 | None \<Rightarrow> False) \<and>
      checkVersionedHashes (commitmentVersion ?c) ?hs = Inr () \<and>
      \<not> length ?hs > L \<and>
      t = \<lparr> chainId = int cid, nonce = b_nonce base, maxPriorityFeePerGas = maxPrio,
            maxFeePerGas = maxFee, tx_gasLimit = b_gasLimit base, to = b_to base,
            tx_value = b_value base, tx_data = b_data base, accessList = ?al,
            maxFeePerDataGas = maxDataFee, versionedHashes = ?hs,
            v = b_v base, r = b_r base, s = b_s base,
            blobs = map_option array_of (td_blobs txData),
            kzgCommitments = map_option array_of (td_kzgCommitments txData),
            kzgProofs = map_option array_of (td_kzgProofs txData), common = ?c,
            frozen = (case opt_freeze opts of None \<Rightarrow> True | Some f \<Rightarrow> f) \<rparr>"
    unfolding BlobEIP4844Transaction_new_def Let_def bind_err_Inr throw_if_Inr lift_common_Inr
    by (elim exE conjE) auto
  then obtain base maxFee maxPrio maxDataFee where
    base: "BaseTransaction txData = Inr base"
    and rest: "isActivatedEIP ?c 1559 = Inr True" "isActivatedEIP ?c 4844 = Inr True"
      "verifyAccessList ?al"
      "fits256 maxFee" "fits256 maxPrio" "\<not> b_gasLimit base * maxFee > MAX_INTEGER"
      "\<not> maxFee < maxPrio"
      "\<not> (case b_v base of Some y \<Rightarrow> y \<noteq> 0 \<and> y \<noteq> 1 | None \<Rightarrow> False)"
      "\<not> (case b_s base of Some x \<Rightarrow> x > SECP256K1_ORDER_DIV_2 | None \<Rightarrow> False)"
      "checkVersionedHashes (commitmentVersion ?c) ?hs = Inr ()" "\<not> length ?hs > L"
    and fees: "toBigInt (td_maxFeePerGas txData) = Inr maxFee"
      "toBigInt (td_maxPriorityFeePerGas txData) = Inr maxPrio"
      "toBigInt (td_maxFeePerDataGas txData) = Inr maxDataFee"
    and t: "t = \<lparr> chainId = int cid, nonce = b_nonce base, maxPriorityFeePerGas = maxPrio,
            maxFeePerGas = maxFee, tx_gasLimit = b_gasLimit base, to = b_to base,
            tx_value = b_value base, tx_data = b_data base, accessList = ?al,
            maxFeePerDataGas = maxDataFee, versionedHashes = ?hs,
            v = b_v base, r = b_r base, s = b_s base,
            blobs = map_option array_of (td_blobs txData),
            kzgCommitments = map_option array_of (td_kzgCommitments txData),
            kzgProofs = map_option array_of (td_kzgProofs txData), common = ?c,
            frozen = (case opt_freeze opts of None \<Rightarrow> True | Some f \<Rightarrow> f) \<rparr>"
    by blast
  from fees have "0 \<le> maxFee" "0 \<le> maxPrio" "0 \<le> maxDataFee"
    by (auto dest: toBigInt_nonneg)
  with BaseTransaction_inv [OF base] rest show ?thesis
    unfolding constructed_def t by (auto split: option.splits)
qed

lemma as_bytes_list_map: "as_bytes_list (map RBytes hs) = Inr hs"
  by (induction hs) (simp_all add: as_bytes_def)

lemma as_accessList_rlp: "as_accessList (accessList_rlp al) = Inr al"
proof -
  have "as_accessList_items
          (map (\<lambda>item. RList [RBytes (fst item), RList (map RBytes (snd item))]) al) = Inr al"
    by (induction al) (simp_all add: as_accessList_item_def as_bytes_list_map)
  then show ?thesis by (simp add: as_accessList_def accessList_rlp_def)
qed

lemma toBigInt_unpadded:
  "0 \<le> n \<Longrightarrow> toBigInt (Some (FromBytes (bigIntToUnpaddedBytes n))) = Inr n"
  by (simp add: toBigInt_def toBytes_def bigIntToUnpaddedBytes_def bytesToBigInt_be_bytes)

lemma bytesToBigInt_unpadded: "0 \<le> n \<Longrightarrow> bytesToBigInt (bigIntToUnpaddedBytes n) = n"
  by (simp add: bigIntToUnpaddedBytes_def bytesToBigInt_be_bytes)

lemma bytesToBigInt_zero_byte: "bytesToBigInt [0] = 0"
  by (simp add: bytesToBigInt_def)

lemma toBigInt_FromBigInt: "0 \<le> n \<Longrightarrow> toBigInt (Some (FromBigInt n)) = Inr n"
  by (cases "n = 0")
     (simp_all add: toBigInt_def toBytes_def bigIntToBytes_def bytesToBigInt_zero_byte
        bytesToBigInt_be_bytes)

lemma toOptBigInt_v:
  assumes "0 \<le> y"
  shows "toOptBigInt (Some (FromBigInt (bytesToBigInt (opt_unpadded (Some y))))) = Inr (Some y)"
proof -
  have "bytesToBigInt (opt_unpadded (Some y)) = y"
    using assms by (simp add: opt_unpadded_def bytesToBigInt_unpadded)
  moreover have "toOptBigInt (Some (FromBigInt y)) = Inr (Some y)"
  proof (cases "y = 0")
    case True
    then show ?thesis
      by (simp add: toOptBigInt_def toBytes_def bigIntToBytes_def bytesToBigInt_zero_byte)
  next
    case False
    with assms have "nat y \<noteq> 0" by simp
    then have "be_bytes (nat y) \<noteq> []" by (simp add: be_bytes_empty)
    with assms False show ?thesis
      by (simp add: toOptBigInt_def toBytes_def bigIntToBytes_def bytesToBigInt_be_bytes)
  qed
  ultimately show ?thesis by simp
qed

lemma toOptBigInt_rs:
  "(case x of Some n \<Rightarrow> 0 < n | None \<Rightarrow> True) \<Longrightarrow>
   toOptBigInt (Some (FromBytes (opt_unpadded x))) = Inr x"
  by (cases x)
     (simp_all add: toOptBigInt_def toBytes_def opt_unpadded_def bigIntToUnpaddedBytes_def
        bytesToBigInt_be_bytes be_bytes_empty)

lemma noLeadingZeroes_opt: "noLeadingZeroes (Some (opt_unpadded x))"
proof (cases x)
  case None
  then show ?thesis by (simp add: opt_unpadded_def noLeadingZeroes_def)
next
  case (Some n)
  then show ?thesis by (simp add: opt_unpadded_def noLeadingZeroes_unpadded)
qed

lemma to_again:
  "(case a of Some b \<Rightarrow> length b = 20 | None \<Rightarrow> True) \<Longrightarrow>
   \<not> (length (case a of Some b \<Rightarrow> b | None \<Rightarrow> []) > 0 \<and>
      length (case a of Some b \<Rightarrow> b | None \<Rightarrow> []) \<noteq> 20) \<and>
   (if length (case a of Some b \<Rightarrow> b | None \<Rightarrow> []) > 0
    then Some (case a of Some b \<Rightarrow> b | None \<Rightarrow> []) else None) = a"
  by (cases a) auto

lemma decode_raw:
  assumes c: "constructed L cid opts t"
    and signed: "r t \<noteq> Some 0" "s t \<noteq> Some 0"
  shows "fromValuesArray L cid (raw t) opts =
         Inr (t \<lparr> v := Some (case v t of Some y \<Rightarrow> y | None \<Rightarrow> 0),
                  blobs := None, kzgCommitments := None, kzgProofs := None \<rparr>)"
proof -
  from c have inv:
    "chainId t = int cid" "common t = opt_common opts"
    "frozen t = (case opt_freeze opts of None \<Rightarrow> True | Some f \<Rightarrow> f)"
    "isActivatedEIP (opt_common opts) 1559 = Inr True"
    "isActivatedEIP (opt_common opts) 4844 = Inr True"
    "0 \<le> nonce t" "fits256 (nonce t)" "0 \<le> tx_gasLimit t" "fits256 (tx_gasLimit t)"
    "0 \<le> tx_value t" "fits256 (tx_value t)" "0 \<le> maxFeePerGas t" "fits256 (maxFeePerGas t)"
    "0 \<le> maxPriorityFeePerGas t" "fits256 (maxPriorityFeePerGas t)"
    "tx_gasLimit t * maxFeePerGas t \<le> MAX_INTEGER"
    "maxPriorityFeePerGas t \<le> maxFeePerGas t" "0 \<le> maxFeePerDataGas t"
    "case to t of Some a \<Rightarrow> length a = 20 | None \<Rightarrow> True"
    "verifyAccessList (accessList t)"
    "case v t of Some y \<Rightarrow> y = 0 \<or> y = 1 | None \<Rightarrow> True"
    "case r t of Some x \<Rightarrow> 0 \<le> x \<and> fits256 x | None \<Rightarrow> True"
    "case s t of Some x \<Rightarrow> 0 \<le> x \<and> fits256 x \<and> x \<le> SECP256K1_ORDER_DIV_2 | None \<Rightarrow> True"
    "checkVersionedHashes (commitmentVersion (opt_common opts)) (versionedHashes t) = Inr ()"
    "length (versionedHashes t) \<le> L"
    by (simp_all add: constructed_def)
  define y where "y = (case v t of Some y \<Rightarrow> y | None \<Rightarrow> 0)"
  have y: "bytesToBigInt (opt_unpadded (v t)) = y" "0 \<le> y" "y = 0 \<or> y = 1"
    using inv(21)
    by (auto simp: y_def opt_unpadded_def bytesToBigInt_unpadded split: option.splits)
  have rr: "toOptBigInt (Some (FromBytes (opt_unpadded (r t)))) = Inr (r t)"
    using signed inv by (intro toOptBigInt_rs) (auto split: option.splits)
  have ss: "toOptBigInt (Some (FromBytes (opt_unpadded (s t)))) = Inr (s t)"
    using signed inv by (intro toOptBigInt_rs) (auto split: option.splits)
  have vv: "toOptBigInt (Some (FromBigInt (bytesToBigInt (opt_unpadded (v t))))) = Inr (Some y)"
    using y toOptBigInt_v [of y] by (simp add: opt_unpadded_def bytesToBigInt_unpadded)
  have toB: "toBytes (Some (FromBytes (case to t of Some a \<Rightarrow> a | None \<Rightarrow> []))) =
             Inr (case to t of Some a \<Rightarrow> a | None \<Rightarrow> [])"
    by (simp add: toBytes_def)
  have base: "BaseTransaction
     \<lparr> td_chainId = Some (FromBigInt (bytesToBigInt (bigIntToUnpaddedBytes (chainId t)))),
       td_nonce = Some (FromBytes (bigIntToUnpaddedBytes (nonce t))),
       td_maxPriorityFeePerGas = Some (FromBytes (bigIntToUnpaddedBytes (maxPriorityFeePerGas t))),
       td_maxFeePerGas = Some (FromBytes (bigIntToUnpaddedBytes (maxFeePerGas t))),
       td_gasLimit = Some (FromBytes (bigIntToUnpaddedBytes (tx_gasLimit t))),
       td_to = Some (FromBytes (case to t of Some a \<Rightarrow> a | None \<Rightarrow> [])),
       td_value = Some (FromBytes (bigIntToUnpaddedBytes (tx_value t))),
       td_data = Some (FromBytes (tx_data t)),
       td_accessList = Some (accessList t),
       td_maxFeePerDataGas = Some (FromBytes (bigIntToUnpaddedBytes (maxFeePerDataGas t))),
       td_versionedHashes = Some (versionedHashes t),
       td_v = Some (FromBigInt (bytesToBigInt (opt_unpadded (v t)))),
       td_r = Some (FromBytes (opt_unpadded (r t))),
       td_s = Some (FromBytes (opt_unpadded (s t))),
       td_blobs = None, td_kzgCommitments = None, td_kzgProofs = None \<rparr> =
     Inr \<lparr> b_nonce = nonce t, b_gasLimit = tx_gasLimit t, b_to = to t, b_value = tx_value t,
           b_data = tx_data t, b_v = Some y, b_r = r t, b_s = s t \<rparr>"
  proof -
    have rf: "(case r t of Some x \<Rightarrow> fits256 x | None \<Rightarrow> True) = True"
      and sf: "(case s t of Some x \<Rightarrow> fits256 x | None \<Rightarrow> True) = True"
      using inv(22,23) by (auto split: option.splits)
    have ta: "((case to t of None \<Rightarrow> [] | Some a \<Rightarrow> a) \<noteq> [] \<and>
               length (case to t of None \<Rightarrow> [] | Some a \<Rightarrow> a) \<noteq> 20) = False"
      and tb: "(if (case to t of None \<Rightarrow> [] | Some b \<Rightarrow> b) \<noteq> []
                then Some (case to t of None \<Rightarrow> [] | Some b \<Rightarrow> b) else None) = to t"
      using to_again [OF inv(19)] by auto
    show ?thesis
      using inv(6-11)
      by (simp add: BaseTransaction_def rr ss vv toBigInt_unpadded toB rf sf ta tb toBytes_def)
  qed
  have cid: "getCommon_check cid
               (Some (FromBigInt (bytesToBigInt (bigIntToUnpaddedBytes (chainId t))))) = Inr ()"
    using inv(1)
    by (simp add: getCommon_check_def bytesToBigInt_unpadded toBigInt_FromBigInt)
  have yp: "(y \<noteq> 0 \<and> y \<noteq> 1) = False"
    using y by auto
  have hs: "(case s t of Some x \<Rightarrow> x > SECP256K1_ORDER_DIV_2 | None \<Rightarrow> False) = False"
    using inv(23) by (auto split: option.splits)
  have fees: "(fits256 (maxFeePerGas t) \<and> fits256 (maxPriorityFeePerGas t)) = True"
    "(tx_gasLimit t * maxFeePerGas t > MAX_INTEGER) = False"
    "(maxFeePerGas t < maxPriorityFeePerGas t) = False"
    "(length (versionedHashes t) > L) = False"
    using inv(13,15,16,17,25) by auto
  have rec: "\<lparr> chainId = int cid, nonce = nonce t,
        maxPriorityFeePerGas = maxPriorityFeePerGas t, maxFeePerGas = maxFeePerGas t,
        tx_gasLimit = tx_gasLimit t, to = to t, tx_value = tx_value t, tx_data = tx_data t,
        accessList = accessList t, maxFeePerDataGas = maxFeePerDataGas t,
        versionedHashes = versionedHashes t, v = Some y, r = r t, s = s t,
        blobs = None, kzgCommitments = None, kzgProofs = None, common = opt_common opts,
        frozen = (case opt_freeze opts of None \<Rightarrow> True | Some f \<Rightarrow> f) \<rparr> =
      t \<lparr> v := Some y, blobs := None, kzgCommitments := None, kzgProofs := None \<rparr>"
    by (rule BlobEIP4844Transaction.equality) (simp_all add: inv(1-3))
  have new: "BlobEIP4844Transaction_new L cid
     \<lparr> td_chainId = Some (FromBigInt (bytesToBigInt (bigIntToUnpaddedBytes (chainId t)))),
       td_nonce = Some (FromBytes (bigIntToUnpaddedBytes (nonce t))),
       td_maxPriorityFeePerGas = Some (FromBytes (bigIntToUnpaddedBytes (maxPriorityFeePerGas t))),
       td_maxFeePerGas = Some (FromBytes (bigIntToUnpaddedBytes (maxFeePerGas t))),
       td_gasLimit = Some (FromBytes (bigIntToUnpaddedBytes (tx_gasLimit t))),
       td_to = Some (FromBytes (case to t of Some a \<Rightarrow> a | None \<Rightarrow> [])),
       td_value = Some (FromBytes (bigIntToUnpaddedBytes (tx_value t))),
       td_data = Some (FromBytes (tx_data t)),
       td_accessList = Some (accessList t),
       td_maxFeePerDataGas = Some (FromBytes (bigIntToUnpaddedBytes (maxFeePerDataGas t))),
       td_versionedHashes = Some (versionedHashes t),
       td_v = Some (FromBigInt (bytesToBigInt (opt_unpadded (v t)))),
       td_r = Some (FromBytes (opt_unpadded (r t))),
       td_s = Some (FromBytes (opt_unpadded (s t))),
       td_blobs = None, td_kzgCommitments = None, td_kzgProofs = None \<rparr> opts =
       Inr (t \<lparr> v := Some y, blobs := None, kzgCommitments := None, kzgProofs := None \<rparr>)"
    unfolding BlobEIP4844Transaction_new_def Let_def base
    using inv(12,14,18)
    by (simp add: cid lift_common_def toBigInt_unpadded inv(4,5,13,15,20,24) yp hs fees rec)
  show ?thesis
    unfolding fromValuesArray_def raw_def y_def [symmetric]
    using new
    by (simp add: Let_def as_bytes_def as_accessList_rlp as_versionedHashes_def as_bytes_list_map
          noLeadingZeroes_unpadded noLeadingZeroes_opt)
qed

lemma toOptBigInt_FromBigInt: "0 \<le> n \<Longrightarrow> toOptBigInt (Some (FromBigInt n)) = Inr (Some n)"
  by (cases "n = 0")
     (simp_all add: toOptBigInt_def toBytes_def bigIntToBytes_def bytesToBigInt_zero_byte
        bytesToBigInt_be_bytes be_bytes_empty)

lemma unsigned_fields:
  "td_chainId unsigned_txData = None" "td_nonce unsigned_txData = Some (FromBigInt 7)"
  "td_maxPriorityFeePerGas unsigned_txData = Some (FromBigInt 2)"
  "td_maxFeePerGas unsigned_txData = Some (FromBigInt 300)"
  "td_gasLimit unsigned_txData = Some (FromBigInt 21000)"
  "td_to unsigned_txData = Some (FromBytes (address_of 5))"
  "td_value unsigned_txData = None" "td_data unsigned_txData = None"
  "td_accessList unsigned_txData = None"
  "td_maxFeePerDataGas unsigned_txData = Some (FromBigInt 9)"
  "td_versionedHashes unsigned_txData = Some [hash1]"
  "td_v unsigned_txData = None" "td_r unsigned_txData = None" "td_s unsigned_txData = None"
  "td_blobs unsigned_txData = None" "td_kzgCommitments unsigned_txData = None"
  "td_kzgProofs unsigned_txData = None"
  by (simp_all add: unsigned_txData_def empty_txData_def)

lemma signed_fields:
  "td_chainId signed_txData = None" "td_nonce signed_txData = Some (FromBigInt 7)"
  "td_maxPriorityFeePerGas signed_txData = Some (FromBigInt 2)"
  "td_maxFeePerGas signed_txData = Some (FromBigInt 300)"
  "td_gasLimit signed_txData = Some (FromBigInt 21000)"
  "td_to signed_txData = Some (FromBytes (address_of 5))"
  "td_value signed_txData = None" "td_data signed_txData = None"
  "td_accessList signed_txData = None"
  "td_maxFeePerDataGas signed_txData = Some (FromBigInt 9)"
  "td_versionedHashes signed_txData = Some [hash1]"
  "td_v signed_txData = Some (FromBigInt 0)" "td_r signed_txData = Some (FromBigInt 1000)"
  "td_s signed_txData = Some (FromBigInt 2000)"
  "td_blobs signed_txData = None" "td_kzgCommitments signed_txData = None"
  "td_kzgProofs signed_txData = None"
  by (simp_all add: signed_txData_def unsigned_txData_def empty_txData_def)

lemma length_address_of: "length (address_of n) = 20"
  by (simp add: address_of_def)

lemma address_of_nonempty: "address_of n \<noteq> []"
  by (simp add: address_of_def)

lemma BaseTransaction_unsigned:
  "BaseTransaction unsigned_txData =
   Inr \<lparr> b_nonce = 7, b_gasLimit = 21000, b_to = Some (address_of 5), b_value = 0, b_data = [],
         b_v = None, b_r = None, b_s = None \<rparr>"
  by (simp add: BaseTransaction_def unsigned_fields toBigInt_FromBigInt length_address_of
        fits256_def MAX_INTEGER_def)
     (simp add: toBytes_def toBigInt_def toOptBigInt_def length_address_of address_of_nonempty)

lemma BaseTransaction_signed:
  "BaseTransaction signed_txData =
   Inr \<lparr> b_nonce = 7, b_gasLimit = 21000, b_to = Some (address_of 5), b_value = 0, b_data = [],
         b_v = Some 0, b_r = Some 1000, b_s = Some 2000 \<rparr>"
  by (simp add: BaseTransaction_def signed_fields toBigInt_FromBigInt toOptBigInt_FromBigInt
        length_address_of fits256_def MAX_INTEGER_def)
     (simp add: toBytes_def toBigInt_def toOptBigInt_def length_address_of address_of_nonempty)

lemma hash1_shape: "length hash1 = 32" "hd hash1 = 1"
  by (simp_all add: hash1_def)

lemma toBigInt_None: "toBigInt None = Inr 0"
  by (simp add: toBigInt_def toBytes_def)

lemma new_unsigned: "BlobEIP4844Transaction_new 6 1 unsigned_txData blob_opts = Inr unsigned_tx"
proof -
  have "opt_common blob_opts = blob_common" "opt_freeze blob_opts = None"
    by (simp_all add: blob_opts_def)
  then show ?thesis
    by (simp add: BlobEIP4844Transaction_new_def Let_def BaseTransaction_unsigned blob_activated
          blob_version lift_common_def getCommon_check_def verifyAccessList_def
          toBigInt_FromBigInt unsigned_fields hash1_shape unsigned_tx_def
          fits256_def MAX_INTEGER_def toBigInt_None)
qed

lemma new_signed: "BlobEIP4844Transaction_new 6 1 signed_txData blob_opts = Inr signed_tx"
proof -
  have "opt_common blob_opts = blob_common" "opt_freeze blob_opts = None"
    by (simp_all add: blob_opts_def)
  then show ?thesis
    by (simp add: BlobEIP4844Transaction_new_def Let_def BaseTransaction_signed blob_activated
          blob_version lift_common_def getCommon_check_def verifyAccessList_def
          toBigInt_FromBigInt signed_fields hash1_shape unsigned_tx_def
          signed_tx_def SECP256K1_ORDER_DIV_2_def
          fits256_def MAX_INTEGER_def toBigInt_None)
qed

lemma raw_signed:
  "raw signed_tx =
     [RBytes [1], RBytes [7], RBytes [2], RBytes [1, 44], RBytes [82, 8],
      RBytes (address_of 5), RBytes [], RBytes [], RList [], RBytes [9],
      RList [RBytes hash1], RBytes [], RBytes [3, 232], RBytes [7, 208]]"
  by (simp add: raw_def signed_tx_def unsigned_tx_def bigIntToUnpaddedBytes_def accessList_rlp_def
        opt_unpadded_def)

lemma payload_signed: "concat (map RLP_encode (raw signed_tx)) = signed_payload"
  by (simp add: raw_signed encodeLength_def address_of_def hash1_def signed_payload_def)

lemma length_signed_payload: "length signed_payload = 75"
  by (simp add: signed_payload_def)

lemma encodeLength_75: "encodeLength 75 192 = [248, 75]"
  by (simp add: encodeLength_def)

lemma encode_signed: "RLP_encode (RList (raw signed_tx)) = [248, 75] @ signed_payload"
  by (simp add: Let_def payload_signed length_signed_payload encodeLength_75)

lemma decode_signed:
  "RLP_decode ([248, 75] @ signed_payload) = Some (RList (raw signed_tx))"
  by (simp add: RLP_decode_def raw_signed long_payload_def be_nat_def address_of_def hash1_def
        signed_payload_def)

lemma encode_unsigned: "RLP_encode (RList (raw unsigned_tx)) = [248, 71] @ unsigned_payload"
  by (simp add: Let_def payload_unsigned length_unsigned_payload encodeLength_71)

lemma commitment_encoded:
  "RLP_encode (RList [RBytes commitment1]) = [224, 159] @ commitment1"
  by (simp add: commitment1_def encodeLength_def)

lemma length_commitment1: "length commitment1 = 31"
  by (simp add: commitment1_def)

lemma encodeLength_wrapper:
  "encodeLength 112 192 = [248, 112]" "encodeLength 110 192 = [248, 110]"
  by (simp_all add: encodeLength_def)


lemma encode_wrapper_no_proof:
  "RLP_encode (RList [RList (raw unsigned_tx), RList [RBytes [0xb1]],
                      RList [RBytes commitment1], RList []]) =
   [248, 110] @ ([248, 71] @ unsigned_payload) @ [194, 129, 0xb1] @
     ([224, 159] @ commitment1) @ [192]"
proof -
  have "concat (map RLP_encode [RList (raw unsigned_tx), RList [RBytes [0xb1]],
                      RList [RBytes commitment1], RList []]) =
        ([248, 71] @ unsigned_payload) @ [194, 129, 0xb1] @
          ([224, 159] @ commitment1) @ [192]"
    unfolding list.map concat.simps encode_unsigned commitment_encoded
    by (simp add: encodeLength_def)
  moreover have "length (([248, 71] @ unsigned_payload) @ [194, 129, 0xb1] @
          ([224, 159] @ commitment1) @ [192 :: byte]) = 110"
    by (simp add: length_unsigned_payload length_commitment1)
  ultimately show ?thesis
    unfolding RLP_encode.simps Let_def by (simp only: encodeLength_wrapper)
qed


lemma decode_wrapper_no_proof:
  "RLP_decode (drop 1 wrapper_bytes_no_proof) =
   Some (RList [RList (raw unsigned_tx), RList [RBytes [0xb1]], RList [RBytes commitment1],
                RList []])"
  unfolding wrapper_bytes_no_proof_def encode_wrapper_no_proof
  by (simp add: TRANSACTION_TYPE_BYTES_def RLP_decode_def raw_unsigned long_payload_def be_nat_def
        address_of_def hash1_def unsigned_payload_def commitment1_def)

lemma take_wrapper:
  "take 1 wrapper_bytes = TRANSACTION_TYPE_BYTES"
  "take 1 wrapper_bytes_no_proof = TRANSACTION_TYPE_BYTES"
  by (simp_all add: wrapper_bytes_def wrapper_bytes_no_proof_def TRANSACTION_TYPE_BYTES_def)

lemma unfrozen_unsigned:
  "fromValuesArray 6 1 (raw unsigned_tx) (blob_opts \<lparr> opt_freeze := Some False \<rparr>) =
   Inr (unsigned_tx \<lparr> v := Some 0, frozen := False \<rparr>)"
proof -
  have "constructed 6 1 blob_opts unsigned_tx"
    using new_unsigned by (rule new_constructed)
  then have c: "constructed 6 1 (blob_opts \<lparr> opt_freeze := Some False \<rparr>)
                  (unsigned_tx \<lparr> frozen := False \<rparr>)"
    by (simp add: constructed_def)
  have u: "r (unsigned_tx \<lparr> frozen := False \<rparr>) \<noteq> Some 0"
    "s (unsigned_tx \<lparr> frozen := False \<rparr>) \<noteq> Some 0"
    by (simp_all add: unsigned_tx_def)
  have "raw (unsigned_tx \<lparr> frozen := False \<rparr>) = raw unsigned_tx"
    by (simp add: raw_def)
  with decode_raw [OF c u] show ?thesis
    by (simp add: unsigned_tx_def)
qed



text \<open>With this verifier a wrapper of one blob, one commitment and no proof is refused.\<close>

lemma wrapper_no_proof_refused:
  "fromSerializedBlobTxNetworkWrapper RLP_decode counting_kzg prefix_versionedHash 6 1
     wrapper_bytes_no_proof (Some blob_opts) = Inl KZGVerificationFails"
proof -
  have "opt_common blob_opts = blob_common" "opt_freeze blob_opts = None"
    by (simp_all add: blob_opts_def)
  then show ?thesis
    by (simp add: fromSerializedBlobTxNetworkWrapper_def take_wrapper decode_wrapper_no_proof
          unfrozen_unsigned blob_version validateBlobTransactionNetworkWrapper_def
          counting_kzg_def Let_def del: One_nat_def)
       (simp add: unsigned_tx_def)
qed


text \<open>
  Claim C7, evaluated. The constructor accepts transaction data with every field absent,
  under a \<open>Common\<close> with EIP-4844 active: the transaction it returns has \<open>to\<close> undefined
  and no versioned hash. (What the constructor does check of the versioned hashes is
  \<open>new_hashes\<close>: at most \<open>LIMIT_BLOBS_PER_TX\<close> of them, each of 32 bytes and beginning with
  the version byte.)
\<close>

theorem constructor_accepts_without_to_and_hashes:
  "(case BlobEIP4844Transaction_new 6 1 empty_txData blob_opts of
      Inr t \<Rightarrow> to t = None \<and> versionedHashes t = []
    | Inl e \<Rightarrow> False)"
proof -
  have "opt_common blob_opts = blob_common" by (simp add: blob_opts_def)
  then show ?thesis
    by (simp add: BlobEIP4844Transaction_new_def Let_def BaseTransaction_empty blob_activated
          lift_common_def getCommon_check_def verifyAccessList_def MAX_INTEGER_def
          toBigInt_def toBytes_def empty_fields)
qed



text \<open>
  Claim C6, amended. A transaction the constructor returned, whose \<open>r\<close> and \<open>s\<close> are not 0,
  is read back from its serialisation by \<open>fromSerializedTx\<close>, given an RLP codec that
  decodes its own encoding of \<open>raw\<close>: every field is that of the transaction, except that
  an undefined \<open>v\<close> comes back as 0 and that the blobs, commitments and proofs, which
  \<open>serialize\<close> does not write, come back undefined. So a signed transaction without
  wrapper data is reconstructed field for field. \<open>serialize\<close> is a function of the
  transaction and the encoder: equal transactions have equal bytes.
\<close>

theorem serialize_roundtrip:
  assumes "BlobEIP4844Transaction_new L cid txData opts = Inr t"
    and "r t \<noteq> Some 0" and "s t \<noteq> Some 0"
    and "RLP_dec (RLP_enc (RList (raw t))) = Some (RList (raw t))"
  shows "fromSerializedTx RLP_dec L cid (serialize RLP_enc t) opts =
           Inr (t \<lparr> v := Some (case v t of Some y \<Rightarrow> y | None \<Rightarrow> 0),
                    blobs := None, kzgCommitments := None, kzgProofs := None \<rparr>) \<and>
         (v t \<noteq> None \<and> blobs t = None \<and> kzgCommitments t = None \<and> kzgProofs t = None \<longrightarrow>
            fromSerializedTx RLP_dec L cid (serialize RLP_enc t) opts = Inr t)"
proof -
  have "constructed L cid opts t"
    using assms(1) by (rule new_constructed)
  then have raw: "fromValuesArray L cid (raw t) opts =
           Inr (t \<lparr> v := Some (case v t of Some y \<Rightarrow> y | None \<Rightarrow> 0),
                    blobs := None, kzgCommitments := None, kzgProofs := None \<rparr>)"
    using assms(2,3) by (rule decode_raw)
  have first: "fromSerializedTx RLP_dec L cid (serialize RLP_enc t) opts =
           Inr (t \<lparr> v := Some (case v t of Some y \<Rightarrow> y | None \<Rightarrow> 0),
                    blobs := None, kzgCommitments := None, kzgProofs := None \<rparr>)"
    by (simp add: fromSerializedTx_def serialize_def TRANSACTION_TYPE_BYTES_def assms(4) raw)
  moreover have "t \<lparr> v := Some (case v t of Some y \<Rightarrow> y | None \<Rightarrow> 0),
                    blobs := None, kzgCommitments := None, kzgProofs := None \<rparr> = t"
    if "v t \<noteq> None" "blobs t = None" "kzgCommitments t = None" "kzgProofs t = None"
    using that by (intro BlobEIP4844Transaction.equality) auto
  ultimately show ?thesis by simp
qed

theorem serialize_roundtrip_witness:
  "BlobEIP4844Transaction_new 6 1 signed_txData blob_opts = Inr signed_tx \<and>
   r signed_tx \<noteq> Some 0 \<and> s signed_tx \<noteq> Some 0 \<and>
   RLP_decode (RLP_encode (RList (raw signed_tx))) = Some (RList (raw signed_tx)) \<and>
   fromSerializedTx RLP_decode 6 1 (serialize RLP_encode signed_tx) blob_opts = Inr signed_tx"
proof -
  have sig: "r signed_tx \<noteq> Some 0" "s signed_tx \<noteq> Some 0" "v signed_tx \<noteq> None"
    "blobs signed_tx = None" "kzgCommitments signed_tx = None" "kzgProofs signed_tx = None"
    by (simp_all add: signed_tx_def unsigned_tx_def)
  have codec: "RLP_decode (RLP_encode (RList (raw signed_tx))) = Some (RList (raw signed_tx))"
    unfolding encode_signed by (rule decode_signed)
  from serialize_roundtrip [of 6 1 signed_txData blob_opts signed_tx RLP_decode RLP_encode,
         OF new_signed sig(1,2) codec]
  have "fromSerializedTx RLP_decode 6 1 (serialize RLP_encode signed_tx) blob_opts = Inr signed_tx"
    using sig(3-6) by blast
  with new_signed sig(1,2) codec show ?thesis by blast
qed

theorem serialize_roundtrip_unsigned_counterexample:
  "BlobEIP4844Transaction_new 6 1 unsigned_txData blob_opts = Inr unsigned_tx \<and>
   v unsigned_tx = None \<and>
   (case fromSerializedTx RLP_decode 6 1 (serialize RLP_encode unsigned_tx) blob_opts of
      Inr t' \<Rightarrow> v t' = Some 0 \<and> t' \<noteq> unsigned_tx
    | Inl e \<Rightarrow> False)"
proof -
  have c: "constructed 6 1 blob_opts unsigned_tx"
    using new_unsigned by (rule new_constructed)
  have u: "r unsigned_tx \<noteq> Some 0" "s unsigned_tx \<noteq> Some 0" "v unsigned_tx = None"
    by (simp_all add: unsigned_tx_def)
  have "fromValuesArray 6 1 (raw unsigned_tx) blob_opts =
          Inr (unsigned_tx \<lparr> v := Some (case v unsigned_tx of Some y \<Rightarrow> y | None \<Rightarrow> 0),
                 blobs := None, kzgCommitments := None, kzgProofs := None \<rparr>)"
    using c u(1,2) by (rule decode_raw)
  moreover have "take 1 (serialize RLP_encode unsigned_tx) = TRANSACTION_TYPE_BYTES"
    by (simp add: serialize_def TRANSACTION_TYPE_BYTES_def)
  moreover have "RLP_decode (drop 1 (serialize RLP_encode unsigned_tx)) =
                   Some (RList (raw unsigned_tx))"
    using decode_unsigned by (simp add: serialize_unsigned)
  ultimately have "fromSerializedTx RLP_decode 6 1 (serialize RLP_encode unsigned_tx) blob_opts =
          Inr (unsigned_tx \<lparr> v := Some 0,
                 blobs := None, kzgCommitments := None, kzgProofs := None \<rparr>)"
    by (simp add: fromSerializedTx_def u(3))
  moreover have "unsigned_tx \<lparr> v := Some 0,
                 blobs := None, kzgCommitments := None, kzgProofs := None \<rparr> \<noteq> unsigned_tx"
  proof
    assume "unsigned_tx \<lparr> v := Some 0,
                 blobs := None, kzgCommitments := None, kzgProofs := None \<rparr> = unsigned_tx"
    then have "v (unsigned_tx \<lparr> v := Some 0,
                 blobs := None, kzgCommitments := None, kzgProofs := None \<rparr>) = v unsigned_tx"
      by simp
    then show False by (simp add: u(3))
  qed
  ultimately show ?thesis using new_unsigned u(3) by simp
qed

end
